theory Spec2Isabelle
  imports Complex_Main
begin

section \<open>Python values used by \<open>main.py\<close>\<close>

text \<open>
  The script is one Python module: \<open>get_image_path\<close>, \<open>recognize_celebrities\<close>,
  \<open>draw_face_boxes\<close> and the batch loop under \<open>__main__\<close>. Exceptions are values: a
  function that can raise returns \<open>error + 'a\<close>, with \<open>Inl\<close> the exception.
  Every constructor of \<open>error\<close> is a subclass of Python's \<open>Exception\<close>, which is
  what the batch loop catches.
\<close>

datatype error =
    KeyError string
  | ValueError string
  | OverflowError string
  | FileNotFoundError string
  | UnidentifiedImageError string
  | OSError string
  | SystemError string
  | ClientError string

text \<open>
  \<open>str(e)\<close>, as the handler's f-string formats it. A \<open>KeyError\<close> prints the
  \<open>repr\<close> of its key and a \<open>FileNotFoundError\<close> the \<open>repr\<close> of its path; the
  \<open>repr\<close> of a string is written here for strings without quotes, backslashes
  or non-printable characters (every key and every file name of the script).
  The other exceptions carry the message their library gave them.
\<close>

fun str_error :: "error \<Rightarrow> string" where
  "str_error (KeyError k) = [CHR 0x27] @ k @ [CHR 0x27]"
| "str_error (ValueError m) = m"
| "str_error (OverflowError m) = m"
| "str_error (FileNotFoundError p) =
     ''[Errno 2] No such file or directory: '' @ [CHR 0x27] @ p @ [CHR 0x27]"
| "str_error (UnidentifiedImageError m) = m"
| "str_error (OSError m) = m"
| "str_error (SystemError m) = m"
| "str_error (ClientError m) = m"

definition and_then :: "error + 'a \<Rightarrow> ('a \<Rightarrow> error + 'b) \<Rightarrow> error + 'b" where
  "and_then m f = (case m of Inl e \<Rightarrow> Inl e | Inr v \<Rightarrow> f v)"

text \<open>\<open>d[key]\<close> on a dictionary whose key may be absent.\<close>

definition getitem :: "string \<Rightarrow> 'a option \<Rightarrow> error + 'a" where
  "getitem key field = (case field of None \<Rightarrow> Inl (KeyError key) | Some v \<Rightarrow> Inr v)"

subsection \<open>Floating point\<close>

text \<open>
  A Python \<open>float\<close> is an IEEE 754 binary64 value. A finite one is the rational
  number it denotes; the two zeros are one value, since the script observes a
  float only through \<open>int()\<close> and \<open>>\<close>, which do not tell them apart.
  \<open>round_double\<close> rounds a rational to the nearest binary64 value, ties to
  even, with gradual underflow below \<open>2 powi (-1022)\<close> and overflow to infinity.
\<close>

datatype pyfloat = Finite rat | PosInf | NegInf | NaN

fun bit_length :: "nat \<Rightarrow> nat" where
  "bit_length n = (if n = 0 then 0 else Suc (bit_length (n div 2)))"

definition ilog2 :: "rat \<Rightarrow> int" where
  "ilog2 q =
     (let (p, d) = quotient_of q;
          e0 = int (bit_length (nat p)) - int (bit_length (nat d))
      in if 2 powi e0 \<le> q then e0 else e0 - 1)"

definition round_half_even :: "rat \<Rightarrow> int" where
  "round_half_even x =
     (let f = \<lfloor>x\<rfloor>; r = x - of_int f
      in if r < 1 / 2 then f
         else if 1 / 2 < r then f + 1
         else if even f then f else f + 1)"

definition round_double :: "rat \<Rightarrow> pyfloat" where
  "round_double q =
     (if q = 0 then Finite 0
      else let a = \<bar>q\<bar>;
               s = max (ilog2 a) (- 1022) - 52;
               r = of_int (round_half_even (a / 2 powi s)) * 2 powi s
           in if 2 ^ 1024 \<le> r then (if 0 < q then PosInf else NegInf)
              else Finite (if 0 < q then r else - r))"

fun fsgn :: "pyfloat \<Rightarrow> int" where
  "fsgn (Finite a) = (if a < 0 then - 1 else if a = 0 then 0 else 1)"
| "fsgn PosInf = 1"
| "fsgn NegInf = - 1"
| "fsgn NaN = 0"

text \<open>\<open>x * y\<close> and \<open>x + y\<close> on floats.\<close>

fun fmul :: "pyfloat \<Rightarrow> pyfloat \<Rightarrow> pyfloat" where
  "fmul (Finite a) (Finite b) = round_double (a * b)"
| "fmul x y =
     (if x = NaN \<or> y = NaN \<or> fsgn x * fsgn y = 0 then NaN
      else if 0 < fsgn x * fsgn y then PosInf else NegInf)"

fun fadd :: "pyfloat \<Rightarrow> pyfloat \<Rightarrow> pyfloat" where
  "fadd (Finite a) (Finite b) = round_double (a + b)"
| "fadd NaN y = NaN"
| "fadd x NaN = NaN"
| "fadd PosInf NegInf = NaN"
| "fadd NegInf PosInf = NaN"
| "fadd PosInf y = PosInf"
| "fadd NegInf y = NegInf"
| "fadd x PosInf = PosInf"
| "fadd x NegInf = NegInf"

text \<open>
  \<open>float(n)\<close> for an \<open>int\<close>, as the mixed product \<open>x * n\<close> converts its integer
  operand: correctly rounded, \<open>OverflowError\<close> beyond the largest float.
\<close>

definition float_of_int :: "int \<Rightarrow> error + pyfloat" where
  "float_of_int n =
     (case round_double (of_int n) of
        Finite r \<Rightarrow> Inr (Finite r)
      | _ \<Rightarrow> Inl (OverflowError ''int too large to convert to float''))"

definition fmul_int :: "pyfloat \<Rightarrow> int \<Rightarrow> error + pyfloat" where
  "fmul_int x n = and_then (float_of_int n) (\<lambda>y. Inr (fmul x y))"

text \<open>\<open>int(x)\<close> on a float: truncation toward zero; infinities and NaN raise.\<close>

definition trunc :: "rat \<Rightarrow> int" where
  "trunc q = (if 0 \<le> q then \<lfloor>q\<rfloor> else \<lceil>q\<rceil>)"

fun py_int :: "pyfloat \<Rightarrow> error + int" where
  "py_int (Finite q) = Inr (trunc q)"
| "py_int NaN = Inl (ValueError ''cannot convert float NaN to integer'')"
| "py_int PosInf = Inl (OverflowError ''cannot convert float infinity to integer'')"
| "py_int NegInf = Inl (OverflowError ''cannot convert float infinity to integer'')"

text \<open>
  \<open>face.get("MatchConfidence", 0)\<close> is the float of the response or the
  \<open>int\<close> 0; \<open>confidence > 90\<close> compares either with the \<open>int\<close> 90, exactly.
\<close>

datatype pynum = PyInt int | PyFloat pyfloat

fun gt_int :: "pynum \<Rightarrow> int \<Rightarrow> bool" where
  "gt_int (PyInt m) n = (n < m)"
| "gt_int (PyFloat (Finite a)) n = (of_int n < a)"
| "gt_int (PyFloat PosInf) n = True"
| "gt_int (PyFloat NegInf) n = False"
| "gt_int (PyFloat NaN) n = False"

section \<open>The recognition response\<close>

text \<open>
  \<open>CelebrityTypeDef\<close> and the dictionaries inside it are typed dictionaries in
  which every key may be absent; only the keys the script reads are kept.
\<close>

record bounding_box =
  Width :: "pyfloat option"
  Height :: "pyfloat option"
  Left :: "pyfloat option"
  Top :: "pyfloat option"

record compared_face =
  BoundingBox :: "bounding_box option"

record celebrity =
  Name :: "string option"
  Face :: "compared_face option"
  MatchConfidence :: "pyfloat option"

record response =
  CelebrityFaces :: "celebrity list option"

text \<open>
  An entry of the response as the service sends it for a detected face: the
  bounding box is complete; the confidence and the name may be absent.
\<close>

definition detected_entity ::
  "pyfloat \<Rightarrow> pyfloat \<Rightarrow> pyfloat \<Rightarrow> pyfloat \<Rightarrow> pyfloat option \<Rightarrow> string option \<Rightarrow> celebrity" where
  "detected_entity l t w h c n =
     \<lparr>Name = n,
      Face = Some \<lparr>BoundingBox = Some \<lparr>Width = Some w, Height = Some h, Left = Some l, Top = Some t\<rparr>\<rparr>,
      MatchConfidence = c\<rparr>"

section \<open>Drawing\<close>

text \<open>
  An image is its size, the pixels it was decoded from, and the drawing calls
  made on it since, in order. The three calls of \<open>draw_face_boxes\<close>:
  \<open>draw.rectangle(xy, outline=c, width=n)\<close>, \<open>draw.rectangle(bbox, fill=c)\<close>
  and \<open>draw.text(xy, text, font=font, fill=c)\<close>.
\<close>

type_synonym box = "int \<times> int \<times> int \<times> int"

datatype draw_op =
    RectangleOutline box string int
  | RectangleFill box string
  | Text "int \<times> int" string string

record image =
  size :: "int \<times> int"
  pixels :: string
  drawn :: "draw_op list"

text \<open>A loaded font is what \<open>draw.textbbox(xy, text, font=font)\<close> answers with it.\<close>

type_synonym font = "int \<times> int \<Rightarrow> string \<Rightarrow> box"

text \<open>
  The drawing library is not part of the script, and its calls can raise.
  \<open>draw.rectangle\<close> refuses some coordinates: Pillow since 9.5 raises a
  \<open>ValueError\<close> for a box whose right is less than its left or whose bottom
  is less than its top, and a coordinate beyond the machine integers makes the
  call fail. The calls that make the label (\<open>textbbox\<close>, the filled
  \<open>rectangle\<close> and \<open>text\<close>) can fail for the position and the text they are
  given. The object that \<open>ImageDraw.Draw(image)\<close> returns is modelled by these
  faults: the exception raised for the coordinates of an outline, and the
  exception raised by one of the three label calls for a position and a text;
  \<open>None\<close> when the call draws.
\<close>

record image_draw =
  rectangle_fault :: "box \<Rightarrow> error option"
  label_fault :: "int \<times> int \<Rightarrow> string \<Rightarrow> error option"

text \<open>Line 65: \<open>draw.rectangle(xy, outline=outline, width=width)\<close>.\<close>

definition rectangle :: "image_draw \<Rightarrow> box \<Rightarrow> string \<Rightarrow> int \<Rightarrow> image \<Rightarrow> error + image" where
  "rectangle draw xy outline width img =
     (case rectangle_fault draw xy of
        Some e \<Rightarrow> Inl e
      | None \<Rightarrow> Inr (img\<lparr>drawn := drawn img @ [RectangleOutline xy outline width]\<rparr>))"

text \<open>
  Lines 68 to 70: the box of the text, the filled background on that box and
  the text on top of it.
\<close>

definition draw_label ::
  "image_draw \<Rightarrow> font \<Rightarrow> int \<times> int \<Rightarrow> string \<Rightarrow> image \<Rightarrow> error + image" where
  "draw_label draw fnt text_position name img =
     (case label_fault draw text_position name of
        Some e \<Rightarrow> Inl e
      | None \<Rightarrow>
          let bbox = fnt text_position name
          in Inr (img\<lparr>drawn := drawn img @
                [RectangleFill bbox ''red'', Text text_position name ''white'']\<rparr>))"

text \<open>Lines 56 to 61: the bounding box of one face in pixels.\<close>

definition pixel_box :: "int \<Rightarrow> int \<Rightarrow> celebrity \<Rightarrow> error + box" where
  "pixel_box width height face =
     and_then (getitem ''Face'' (Face face)) (\<lambda>cf.
     and_then (getitem ''BoundingBox'' (BoundingBox cf)) (\<lambda>box.
     and_then (getitem ''Left'' (Left box)) (\<lambda>l.
     and_then (fmul_int l width) (\<lambda>lw.
     and_then (py_int lw) (\<lambda>left.
     and_then (getitem ''Top'' (Top box)) (\<lambda>t.
     and_then (fmul_int t height) (\<lambda>th.
     and_then (py_int th) (\<lambda>top.
     and_then (getitem ''Left'' (Left box)) (\<lambda>l2.
     and_then (getitem ''Width'' (Width box)) (\<lambda>w.
     and_then (fmul_int (fadd l2 w) width) (\<lambda>rw.
     and_then (py_int rw) (\<lambda>right.
     and_then (getitem ''Top'' (Top box)) (\<lambda>t2.
     and_then (getitem ''Height'' (Height box)) (\<lambda>h.
     and_then (fmul_int (fadd t2 h) height) (\<lambda>bh.
     and_then (py_int bh) (\<lambda>bottom.
     Inr (left, top, right, bottom)))))))))))))))))"

definition get_confidence :: "celebrity \<Rightarrow> pynum" where
  "get_confidence face =
     (case MatchConfidence face of None \<Rightarrow> PyInt 0 | Some c \<Rightarrow> PyFloat c)"

definition get_name :: "celebrity \<Rightarrow> string" where
  "get_name face = (case Name face of None \<Rightarrow> ''Desconhecido'' | Some n \<Rightarrow> n)"

text \<open>
  Lines 65 to 70, for a face that passed the threshold. A call that raises
  ends the function: nothing after it runs.
\<close>

definition annotate :: "image_draw \<Rightarrow> font \<Rightarrow> box \<Rightarrow> celebrity \<Rightarrow> image \<Rightarrow> error + image" where
  "annotate draw fnt b face img =
     (case b of (left, top', right, bottom) \<Rightarrow>
        and_then (rectangle draw (left, top', right, bottom) ''red'' 3 img) (\<lambda>outlined.
          let name = get_name face;
              text_position = (left, top' - 20)
          in draw_label draw fnt text_position name outlined))"

text \<open>
  One iteration of the loop at line 55, on the image being drawn on; \<open>width\<close>
  and \<open>height\<close> were read from the image before the loop.
\<close>

definition draw_face ::
  "image_draw \<Rightarrow> font \<Rightarrow> int \<Rightarrow> int \<Rightarrow> celebrity \<Rightarrow> image \<Rightarrow> error + image" where
  "draw_face draw fnt width height face img =
     and_then (pixel_box width height face) (\<lambda>b.
       if gt_int (get_confidence face) 90
       then annotate draw fnt b face img
       else Inr img)"

fun draw_faces ::
  "image_draw \<Rightarrow> font \<Rightarrow> int \<Rightarrow> int \<Rightarrow> celebrity list \<Rightarrow> image \<Rightarrow> error + image" where
  "draw_faces draw fnt width height [] img = Inr img"
| "draw_faces draw fnt width height (face # faces) img =
     and_then (draw_face draw fnt width height face img) (draw_faces draw fnt width height faces)"

text \<open>
  What the iteration for one face adds to the drawing when nothing raises:
  nothing at or below the threshold, and above it the outline, the label
  background and the label text.
\<close>

definition drawn_for :: "font \<Rightarrow> int \<Rightarrow> int \<Rightarrow> celebrity \<Rightarrow> draw_op list" where
  "drawn_for fnt width height face =
     (case pixel_box width height face of
        Inl e \<Rightarrow> []
      | Inr (left, top', right, bottom) \<Rightarrow>
          if gt_int (get_confidence face) 90
          then [RectangleOutline (left, top', right, bottom) ''red'' 3,
                RectangleFill (fnt (left, top' - 20) (get_name face)) ''red'',
                Text (left, top' - 20) (get_name face) ''white'']
          else [])"

text \<open>
  A font and a drawing library for the examples: every glyph is 10 pixels wide
  and 20 pixels high; the library refuses a box whose corners are out of
  order, with the messages of Pillow, and draws everything else.
\<close>

definition fixed_width_font :: font where
  "fixed_width_font xy txt = (fst xy, snd xy, fst xy + 10 * int (length txt), snd xy + 20)"

definition example_draw :: image_draw where
  "example_draw =
     \<lparr>rectangle_fault = (\<lambda>(x0, y0, x1, y1).
        if x1 < x0 then Some (ValueError ''x1 must be greater than or equal to x0'')
        else if y1 < y0 then Some (ValueError ''y1 must be greater than or equal to y0'')
        else None),
      label_fault = (\<lambda>xy txt. None)\<rparr>"

text \<open>
  The annotation positions of a drawn image: the coordinates of its outlined
  rectangles and the positions of its label texts, in drawing order. The
  filled label background is left out: its box is what the font answers.
\<close>

datatype position = RectangleAt box | LabelAt "int \<times> int"

fun positions :: "draw_op list \<Rightarrow> position list" where
  "positions [] = []"
| "positions (RectangleOutline b c n # ops) = RectangleAt b # positions ops"
| "positions (RectangleFill b c # ops) = positions ops"
| "positions (Text p t c # ops) = LabelAt p # positions ops"

section \<open>Paths\<close>

text \<open>
  \<open>pathlib\<close> on a POSIX system. A path is its root (empty, one slash or two
  slashes) and the components after it; parsing drops empty components and
  single dots.
\<close>

datatype path = Path string "string list"

text \<open>\<open>s.split('/')\<close>.\<close>

fun split_sep :: "string \<Rightarrow> string list" where
  "split_sep [] = [[]]"
| "split_sep (c # cs) =
     (if c = CHR ''/'' then [] # split_sep cs
      else (case split_sep cs of x # xs \<Rightarrow> (c # x) # xs | [] \<Rightarrow> [[c]]))"

definition rel_parts :: "string \<Rightarrow> string list" where
  "rel_parts s = filter (\<lambda>x. x \<noteq> [] \<and> x \<noteq> ''.'') (split_sep s)"

fun parse_path :: "string \<Rightarrow> path" where
  "parse_path (a # b # c # s) =
     (if a = CHR ''/'' then
        (if b = CHR ''/'' \<and> c \<noteq> CHR ''/'' then Path ''//'' (rel_parts (c # s))
         else Path ''/'' (rel_parts (b # c # s)))
      else Path [] (rel_parts (a # b # c # s)))"
| "parse_path [a, b] =
     (if a = CHR ''/'' then (if b = CHR ''/'' then Path ''//'' [] else Path ''/'' (rel_parts [b]))
      else Path [] (rel_parts [a, b]))"
| "parse_path [a] = (if a = CHR ''/'' then Path ''/'' [] else Path [] (rel_parts [a]))"
| "parse_path [] = Path [] []"

fun join_sep :: "string list \<Rightarrow> string" where
  "join_sep [] = []"
| "join_sep [x] = x"
| "join_sep (x # y # ys) = x @ ''/'' @ join_sep (y # ys)"

fun str_path :: "path \<Rightarrow> string" where
  "str_path (Path rt tail) = (if rt = [] \<and> tail = [] then ''.'' else rt @ join_sep tail)"

text \<open>\<open>p / s\<close>: an absolute right operand replaces the left one.\<close>

fun truediv :: "path \<Rightarrow> string \<Rightarrow> path" where
  "truediv (Path rt tail) s =
     (if s \<noteq> [] \<and> hd s = CHR ''/'' then parse_path s else Path rt (tail @ rel_parts s))"

fun parent :: "path \<Rightarrow> path" where
  "parent (Path rt tail) = Path rt (butlast tail)"

fun name :: "path \<Rightarrow> string" where
  "name (Path rt tail) = (if tail = [] then [] else last tail)"

text \<open>\<open>s.rfind(c)\<close>: the index of the last \<open>c\<close> in \<open>s\<close>, or \<open>-1\<close>.\<close>

fun rfind :: "string \<Rightarrow> char \<Rightarrow> int" where
  "rfind [] c = - 1"
| "rfind (x # xs) c =
     (let r = rfind xs c in if 0 \<le> r then r + 1 else if x = c then 0 else - 1)"

definition stem :: "path \<Rightarrow> string" where
  "stem p =
     (let nm = name p; i = rfind nm CHR ''.''
      in if 0 < i \<and> i < int (length nm) - 1 then take (nat i) nm else nm)"

text \<open>
  A component is what parsing keeps between slashes, and a path is well formed
  when its root is one that parsing gives and its components are components.
\<close>

definition component :: "string \<Rightarrow> bool" where
  "component x \<longleftrightarrow> x \<noteq> [] \<and> x \<noteq> ''.'' \<and> CHR ''/'' \<notin> set x"

fun well_formed :: "path \<Rightarrow> bool" where
  "well_formed (Path rt tail) \<longleftrightarrow>
     (rt = [] \<or> rt = ''/'' \<or> rt = ''//'') \<and> (\<forall>x \<in> set tail. component x)"

section \<open>The world of the script\<close>

text \<open>
  A file holds a picture the imaging library can decode, or other bytes. The
  environment is what the script does not own: the location of \<open>main.py\<close>,
  the remote recognition service (a response or an exception for the bytes
  sent), \<open>ImageDraw.Draw\<close> (the drawing object of an image, or the exception
  of loading its pixels), the font loader, and the faults of saving (\<open>None\<close>:
  the save succeeds; otherwise the exception raised and what is left at the
  path). The world is what the script changes: the files and the lines
  printed.
\<close>

datatype contents = Picture image | Blob string

record env =
  script_file :: string
  client_recognize_celebrities :: "contents \<Rightarrow> error + response"
  Draw :: "image \<Rightarrow> error + image_draw"
  truetype :: "string \<Rightarrow> int \<Rightarrow> error + font"
  save_fault :: "string \<Rightarrow> image \<Rightarrow> (error \<times> contents option) option"

record world =
  files :: "string \<Rightarrow> contents option"
  stdout :: "string list"

definition print :: "string \<Rightarrow> world \<Rightarrow> world" where
  "print line w = w\<lparr>stdout := stdout w @ [line]\<rparr>"

definition get_image_path :: "env \<Rightarrow> string \<Rightarrow> string" where
  "get_image_path ev file_name =
     str_path (truediv (truediv (parent (parse_path (script_file ev))) ''images'') file_name)"

text \<open>The directory of line 19: \<open>Path(__file__).parent / "images"\<close>.\<close>

definition images_directory :: "env \<Rightarrow> path" where
  "images_directory ev = truediv (parent (parse_path (script_file ev))) ''images''"

definition recognize_celebrities :: "env \<Rightarrow> string \<Rightarrow> world \<Rightarrow> error + response" where
  "recognize_celebrities ev photo_path w =
     (case files w photo_path of
        None \<Rightarrow> Inl (FileNotFoundError photo_path)
      | Some image_file \<Rightarrow> client_recognize_celebrities ev image_file)"

text \<open>
  \<open>draw_face_boxes\<close> returns nothing; the result here is the exception it
  raised, if any, and the world it left. Only a failed save changes the world
  before raising. \<open>Image.open\<close> names the path in its messages with \<open>repr\<close>,
  written as in \<open>str_error\<close>.
\<close>

definition draw_face_boxes ::
  "env \<Rightarrow> string \<Rightarrow> string \<Rightarrow> celebrity list \<Rightarrow> world \<Rightarrow> error option \<times> world" where
  "draw_face_boxes ev image_path output_path faces w =
     (case files w image_path of
        None \<Rightarrow> (Some (FileNotFoundError image_path), w)
      | Some (Blob bytes) \<Rightarrow>
          (Some (UnidentifiedImageError
             (''cannot identify image file '' @ [CHR 0x27] @ image_path @ [CHR 0x27])), w)
      | Some (Picture img) \<Rightarrow>
          (case Draw ev img of
             Inl e \<Rightarrow> (Some e, w)
           | Inr draw \<Rightarrow>
               (case truetype ev ''Ubuntu-R.ttf'' 20 of
                  Inl e \<Rightarrow> (Some e, w)
                | Inr fnt \<Rightarrow>
                    (case size img of (width, height) \<Rightarrow>
                       (case draw_faces draw fnt width height faces img of
                          Inl e \<Rightarrow> (Some e, w)
                        | Inr img' \<Rightarrow>
                            (case save_fault ev output_path img' of
                               Some (e, left_over) \<Rightarrow>
                                 (Some e, w\<lparr>files := (files w)(output_path := left_over)\<rparr>)
                             | None \<Rightarrow>
                                 (None,
                                  print (''Imagem processada e salva em: '' @ output_path)
                                    (w\<lparr>files := (files w)(output_path \<mapsto> Picture img')\<rparr>))))))))"

definition image_files :: "string list" where
  "image_files =
     [''capr.jpeg'', ''riana.jpeg'', ''will.jpg'', ''ss.jpg'', ''pipoquinha.jpg'',
      ''Bonne.jpg'', ''ior.jpg'', ''jojo.jpg'', ''Davi.jpg'', ''sub.jpg'']"

text \<open>
  The body of the \<open>try\<close> at line 81, with the output path of line 91, and one
  iteration with its handler.
\<close>

definition output_path_of :: "env \<Rightarrow> string \<Rightarrow> string" where
  "output_path_of ev photo_path =
     get_image_path ev (stem (parse_path photo_path) @ ''-resultado.jpg'')"

definition try_body :: "env \<Rightarrow> string \<Rightarrow> world \<Rightarrow> error option \<times> world" where
  "try_body ev image_file w =
     (let photo_path = get_image_path ev image_file in
      case recognize_celebrities ev photo_path w of
        Inl e \<Rightarrow> (Some e, w)
      | Inr resp \<Rightarrow>
          (let celebrity_faces = (case CelebrityFaces resp of None \<Rightarrow> [] | Some fs \<Rightarrow> fs) in
           if celebrity_faces = []
           then (None, print (''Nenhuma celebridade detectada em: '' @ photo_path) w)
           else draw_face_boxes ev photo_path (output_path_of ev photo_path) celebrity_faces w))"

definition iteration :: "env \<Rightarrow> string \<Rightarrow> world \<Rightarrow> world" where
  "iteration ev image_file w =
     (case try_body ev image_file w of
        (None, w') \<Rightarrow> w'
      | (Some e, w') \<Rightarrow>
          print (''Erro ao processar a imagem '' @ image_file @ '': '' @ str_error e) w')"

definition run_batch :: "env \<Rightarrow> string list \<Rightarrow> world \<Rightarrow> world" where
  "run_batch ev fs w = fold (iteration ev) fs w"

definition main :: "env \<Rightarrow> world \<Rightarrow> world" where
  "main ev w = run_batch ev image_files w"

text \<open>
  An environment and a world for the examples: the script is
  \<open>/app/main.py\<close>, the example font loads, the example library draws,
  saving succeeds, and the images directory holds one picture of 1000 by 500
  pixels, \<open>capr.jpeg\<close>.
\<close>

definition example_env :: "(contents \<Rightarrow> error + response) \<Rightarrow> env" where
  "example_env service =
     \<lparr>script_file = ''/app/main.py'',
      client_recognize_celebrities = service,
      Draw = (\<lambda>img. Inr example_draw),
      truetype = (\<lambda>font_name font_size. Inr fixed_width_font),
      save_fault = (\<lambda>output_path img. None)\<rparr>"

definition example_world :: world where
  "example_world =
     \<lparr>files = [''/app/images/capr.jpeg'' \<mapsto>
                 Picture \<lparr>size = (1000, 500), pixels = ''capr'', drawn = []\<rparr>],
      stdout = []\<rparr>"

section \<open>Rounding to binary64\<close>

text \<open>
  \<open>ilog2\<close> is the binary exponent of a positive rational, so \<open>round_double\<close>
  rounds at the spacing of the binade. \<open>round_double_eqI\<close> then evaluates a
  rounding from its exponent and its integer significand.
\<close>

lemma bit_length_bounds:
  "0 < n \<Longrightarrow> 2 ^ (bit_length n - 1) \<le> n \<and> n < 2 ^ bit_length n"
proof (induction n rule: bit_length.induct)
  case (1 n)
  show ?case
  proof (cases "n div 2 = 0")
    case True
    with "1.prems" have "n = 1" by (simp add: div_eq_0_iff) 
    then show ?thesis by simp
  next
    case False
    then have pos: "0 < n div 2" by simp
    from "1.IH" [OF _ pos] "1.prems"
    have ih: "2 ^ (bit_length (n div 2) - 1) \<le> n div 2" "n div 2 < 2 ^ bit_length (n div 2)"
      by auto
    have bl: "bit_length n = Suc (bit_length (n div 2))"
      using "1.prems" by (subst bit_length.simps) simp
    have gt: "0 < bit_length (n div 2)"
      using pos by (subst bit_length.simps) simp
    have "2 ^ bit_length (n div 2) \<le> n"
    proof -
      have "2 * 2 ^ (bit_length (n div 2) - 1) \<le> 2 * (n div 2)" using ih(1) by simp
      moreover have "2 * 2 ^ (bit_length (n div 2) - 1) = (2::nat) ^ bit_length (n div 2)"
        using gt by (cases "bit_length (n div 2)") simp_all
      ultimately show ?thesis by linarith
    qed
    moreover have "n < 2 * 2 ^ bit_length (n div 2)"
      using ih(2) by linarith
    ultimately show ?thesis by (simp add: bl)
  qed
qed



lemma nat_bounds_rat:
  "0 < p \<Longrightarrow> 2 ^ a \<le> nat p \<Longrightarrow> nat p < 2 ^ b \<Longrightarrow> (2::rat) ^ a \<le> of_int p \<and> (of_int p :: rat) < 2 ^ b"
proof -
  assume p: "0 < p" and a: "2 ^ a \<le> nat p" and b: "nat p < 2 ^ b"
  have "(of_nat (2 ^ a) :: rat) \<le> of_nat (nat p)" using a by (simp only: of_nat_le_iff)
  moreover have "(of_nat (nat p) :: rat) < of_nat (2 ^ b)" using b by (simp only: of_nat_less_iff)
  moreover have "(of_nat (nat p) :: rat) = of_int p" using p by simp
  ultimately show ?thesis by simp
qed

lemma up_bound:
  fixes P D :: rat
  assumes "0 < j" "P < 2 ^ k" "2 ^ (j - 1) \<le> D" "0 < D"
  shows "P / D < 2 powi (int k - int j + 1)"
proof -
  have "P / D < 2 ^ k / D" using assms by (simp add: divide_strict_right_mono)
  also have "\<dots> \<le> 2 ^ k / 2 ^ (j - 1)" using assms by (simp add: frac_le)
  also have "\<dots> = 2 powi (int k - int (j - 1))"
    by (simp add: power_int_diff)
  also have "int k - int (j - 1) = int k - int j + 1" using assms by simp
  finally show ?thesis .
qed

lemma lo_bound:
  fixes P D :: rat
  assumes "0 < k" "2 ^ (k - 1) \<le> P" "D < 2 ^ j" "0 < D"
  shows "2 powi (int k - int j - 1) < P / D"
proof -
  have "int k - int j - 1 = int (k - 1) - int j" using assms by simp
  then have "(2::rat) powi (int k - int j - 1) = 2 powi (int (k - 1) - int j)"
    by (simp only:)
  also have "\<dots> = 2 ^ (k - 1) / 2 ^ j"
    using power_int_diff [of "2::rat" "int (k - 1)" "int j"] by (simp only: power_int_of_nat) simp
  also have "\<dots> \<le> P / 2 ^ j" using assms by (simp add: divide_right_mono)
  also have "\<dots> < P / D" using assms
    by (intro divide_strict_left_mono) (auto intro: less_le_trans [of 0 "2 ^ (k - 1)" P])
  finally show ?thesis .
qed

lemma ilog2_bounds:
  assumes "0 < q"
  shows "2 powi ilog2 q \<le> q \<and> q < 2 powi (ilog2 q + 1)"
proof -
  obtain p d where pd: "quotient_of q = (p, d)" by (cases "quotient_of q")
  have d: "0 < d" using quotient_of_denom_pos [OF pd] .
  have q: "q = of_int p / of_int d" using quotient_of_div [OF pd] .
  have p: "0 < p" using assms d unfolding q by (simp add: zero_less_divide_iff)
  define k where "k = bit_length (nat p)"
  define j where "j = bit_length (nat d)"
  have kb: "2 ^ (k - 1) \<le> nat p" "nat p < 2 ^ k"
    using bit_length_bounds [of "nat p"] p by (simp_all add: k_def)
  have jb: "2 ^ (j - 1) \<le> nat d" "nat d < 2 ^ j"
    using bit_length_bounds [of "nat d"] d by (simp_all add: j_def)
  have k0: "0 < k" using p unfolding k_def by (subst bit_length.simps) simp
  have j0: "0 < j" using d unfolding j_def by (subst bit_length.simps) simp
  have pr: "(2::rat) ^ (k - 1) \<le> of_int p" "(of_int p :: rat) < 2 ^ k"
    using nat_bounds_rat [OF p kb] by simp_all
  have dr: "(2::rat) ^ (j - 1) \<le> of_int d" "(of_int d :: rat) < 2 ^ j"
    using nat_bounds_rat [OF d jb] by simp_all
  have dpos: "(0::rat) < of_int d" using d by simp
  have up: "q < 2 powi (int k - int j + 1)"
    unfolding q using up_bound [OF j0 pr(2) dr(1) dpos] .
  have lo: "2 powi (int k - int j - 1) < q"
    unfolding q using lo_bound [OF k0 pr(1) dr(2) dpos] .
  have il: "ilog2 q =
      (if 2 powi (int k - int j) \<le> q then int k - int j else int k - int j - 1)"
    by (simp only: ilog2_def pd Let_def prod.case k_def j_def)
  show ?thesis
  proof (cases "2 powi (int k - int j) \<le> q")
    case True
    then have "ilog2 q = int k - int j" by (simp only: il if_True)
    then show ?thesis using True up by simp
  next
    case False
    then have e: "ilog2 q = int k - int j - 1" by (simp only: il if_False)
    have "ilog2 q + 1 = int k - int j" unfolding e by simp
    then show ?thesis using False lo unfolding e by simp
  qed
qed

lemma ilog2_eqI:
  assumes "2 powi e \<le> q" "q < 2 powi (e + 1)"
  shows "ilog2 q = e"
proof -
  have "(0::rat) < 2 powi e" by simp
  then have q: "0 < q" using assms(1) by linarith
  note b = ilog2_bounds [OF q]
  have "2 powi e < (2::rat) powi (ilog2 q + 1)" using assms(1) b by linarith
  then have "e < ilog2 q + 1" 
    by (metis linorder_less_linear numeral_One numeral_less_iff
    order_less_imp_not_less power_int_strict_increasing
    semiring_norm(76))
  moreover have "2 powi ilog2 q < (2::rat) powi (e + 1)" using assms(2) b by linarith
  then have "ilog2 q < e + 1"
    by (metis linorder_less_linear numeral_One numeral_less_iff
    order_less_imp_not_less power_int_strict_increasing
    semiring_norm(76))
  ultimately show ?thesis by linarith
qed


lemma round_half_even_eqI:
  assumes "\<bar>x - of_int n\<bar> < 1 / 2 \<or> (\<bar>x - of_int n\<bar> = 1 / 2 \<and> even n)"
  shows "round_half_even x = n"
proof (cases "of_int n \<le> x")
  case True
  then have f: "\<lfloor>x\<rfloor> = n" using assms by (intro floor_unique) auto
  show ?thesis using assms True by (auto simp: round_half_even_def f Let_def)
next
  case False
  then have f: "\<lfloor>x\<rfloor> = n - 1" using assms by (intro floor_unique) auto
  show ?thesis using assms False by (auto simp: round_half_even_def f Let_def)
qed


lemma round_double_eqI:
  assumes "2 powi e \<le> q" "q < 2 powi (e + 1)"
    and "s = max e (- 1022) - 52"
    and "\<bar>q / 2 powi s - of_int n\<bar> < 1 / 2 \<or> (\<bar>q / 2 powi s - of_int n\<bar> = 1 / 2 \<and> even n)"
    and "of_int n * 2 powi s < (2::rat) ^ 1024"
  shows "round_double q = Finite (of_int n * 2 powi s)"
proof -
  have "(0::rat) < 2 powi e" by simp
  then have q: "0 < q" using assms(1) by linarith
  then have a: "\<bar>q\<bar> = q" by simp
  have l: "ilog2 q = e" using assms(1,2) by (rule ilog2_eqI)
  have s: "max (ilog2 q) (- 1022) - 52 = s" using l assms(3) by simp
  have r: "round_half_even (q / 2 powi s) = n"
    using assms(4) by (rule round_half_even_eqI)
  have nb: "\<not> (2::rat) ^ 1024 \<le> of_int n * 2 powi s" using assms(5) by (simp only: not_le)
  have ne: "q \<noteq> 0" using q by simp
  show ?thesis
    unfolding round_double_def Let_def a s r
    using q ne nb by (simp only: if_False if_True)
qed

lemma rd_0_1: "round_double (1 / 10) = Finite (3602879701896397 / 36028797018963968)"
  using round_double_eqI [of "- 4" "1 / 10" "- 56" 7205759403792794] by simp

lemma rd_0_2: "round_double (1 / 5) = Finite (3602879701896397 / 18014398509481984)"
  using round_double_eqI [of "- 3" "1 / 5" "- 55" 7205759403792794] by simp

lemma rd_0_3: "round_double (3 / 10) = Finite (5404319552844595 / 18014398509481984)"
  using round_double_eqI [of "- 2" "3 / 10" "- 54" 5404319552844595] by simp

lemma rd_0_4: "round_double (2 / 5) = Finite (3602879701896397 / 9007199254740992)"
  using round_double_eqI [of "- 2" "2 / 5" "- 54" 7205759403792794] by simp

lemma rd_1000: "round_double 1000 = Finite 1000"
  using round_double_eqI [of "9" "1000" "- 43" 8796093022208000] by simp

lemma rd_500: "round_double 500 = Finite 500"
  using round_double_eqI [of "8" "500" "- 44" 8796093022208000] by simp

lemma rd_left: "round_double (3602879701896397 / 36028797018963968 * 1000) = Finite 100"
  using round_double_eqI [of "6" "3602879701896397 / 36028797018963968 * 1000" "- 46" 7036874417766400] by simp

lemma rd_top: "round_double (3602879701896397 / 18014398509481984 * 500) = Finite 100"
  using round_double_eqI [of "6" "3602879701896397 / 18014398509481984 * 500" "- 46" 7036874417766400] by simp

lemma rd_l_plus_w: "round_double (3602879701896397 / 36028797018963968 + 5404319552844595 / 18014398509481984) = Finite (3602879701896397 / 9007199254740992)"
  using round_double_eqI [of "- 2" "3602879701896397 / 36028797018963968 + 5404319552844595 / 18014398509481984" "- 54" 7205759403792794] by simp

lemma rd_t_plus_h: "round_double (3602879701896397 / 18014398509481984 + 3602879701896397 / 9007199254740992) = Finite (1351079888211149 / 2251799813685248)"
  using round_double_eqI [of "- 1" "3602879701896397 / 18014398509481984 + 3602879701896397 / 9007199254740992" "- 53" 5404319552844596] by simp

lemma rd_right: "round_double (3602879701896397 / 9007199254740992 * 1000) = Finite 400"
  using round_double_eqI [of "8" "3602879701896397 / 9007199254740992 * 1000" "- 44" 7036874417766400] by simp

lemma rd_bottom: "round_double (1351079888211149 / 2251799813685248 * 500) = Finite (5277655813324801 / 17592186044416)"
  using round_double_eqI [of "8" "1351079888211149 / 2251799813685248 * 500" "- 44" 5277655813324801] by simp

lemma float_of_int_1000: "float_of_int 1000 = Inr (Finite 1000)"
  by (simp add: float_of_int_def rd_1000)

lemma float_of_int_500: "float_of_int 500 = Inr (Finite 500)"
  by (simp add: float_of_int_def rd_500)

lemma example_left: "fmul_int (round_double (1 / 10)) 1000 = Inr (Finite 100)"
  by (simp only: fmul_int_def float_of_int_1000 and_then_def sum.case rd_0_1 fmul.simps rd_left)

lemma example_top: "fmul_int (round_double (1 / 5)) 500 = Inr (Finite 100)"
  by (simp only: fmul_int_def float_of_int_500 and_then_def sum.case rd_0_2 fmul.simps rd_top)

lemma example_right:
  "fmul_int (fadd (round_double (1 / 10)) (round_double (3 / 10))) 1000 = Inr (Finite 400)"
  by (simp only: fmul_int_def float_of_int_1000 and_then_def sum.case rd_0_1 rd_0_3
      fadd.simps rd_l_plus_w fmul.simps rd_right)

lemma example_bottom:
  "fmul_int (fadd (round_double (1 / 5)) (round_double (2 / 5))) 500 =
     Inr (Finite (5277655813324801 / 17592186044416))"
  by (simp only: fmul_int_def float_of_int_500 and_then_def sum.case rd_0_2 rd_0_4
      fadd.simps rd_t_plus_h fmul.simps rd_bottom)

lemma trunc_nonneg_eqI: "0 \<le> q \<Longrightarrow> of_int n \<le> q \<Longrightarrow> q < of_int n + 1 \<Longrightarrow> trunc q = n"
  unfolding trunc_def by (simp add: floor_unique)

lemma trunc_neg_eqI: "q < 0 \<Longrightarrow> of_int n - 1 < q \<Longrightarrow> q \<le> of_int n \<Longrightarrow> trunc q = n"
  unfolding trunc_def by (simp add: ceiling_unique)

lemma trunc_300: "trunc (5277655813324801 / 17592186044416) = 300"
  by (rule trunc_nonneg_eqI) simp_all

lemma trunc_of_int [simp]: "trunc (of_int n) = n"
  by (simp add: trunc_def)

lemma trunc_numeral [simp]: "trunc (numeral n) = numeral n"
  using trunc_of_int [of "numeral n"] by simp

lemma trunc_toward_zero:
  "(0 \<le> q \<longrightarrow> 0 \<le> trunc q \<and> of_int (trunc q) \<le> q \<and> q < of_int (trunc q) + 1) \<and>
   (q \<le> 0 \<longrightarrow> trunc q \<le> 0 \<and> q \<le> of_int (trunc q) \<and> of_int (trunc q) - 1 < q)"
proof (intro conjI impI)
  assume q: "0 \<le> q"
  then have t: "trunc q = \<lfloor>q\<rfloor>" by (simp add: trunc_def)
  show "0 \<le> trunc q" using q unfolding t by simp
  show "of_int (trunc q) \<le> q" unfolding t by (rule of_int_floor_le)
  show "q < of_int (trunc q) + 1" unfolding t by linarith
next
  assume q: "q \<le> 0"
  then have t: "trunc q = \<lceil>q\<rceil>" by (cases "q = 0") (simp_all add: trunc_def)
  show "trunc q \<le> 0" using q unfolding t by (simp add: ceiling_le_zero)
  show "q \<le> of_int (trunc q)" unfolding t by (rule le_of_int_ceiling)
  show "of_int (trunc q) - 1 < q" unfolding t by linarith
qed

lemma and_then_Inr [simp]: "and_then (Inr v) f = f v"
  by (simp add: and_then_def)

lemma and_then_Inl [simp]: "and_then (Inl e) f = Inl e"
  by (simp add: and_then_def)

lemma getitem_Some [simp]: "getitem k (Some v) = Inr v"
  by (simp add: getitem_def)

lemma getitem_None [simp]: "getitem k None = Inl (KeyError k)"
  by (simp add: getitem_def)

lemma pixel_box_Inr:
  assumes "Face face = Some cf" "BoundingBox cf = Some b"
    and "Left b = Some l" "Top b = Some t" "Width b = Some w" "Height b = Some h"
    and "fmul_int l W = Inr (Finite lw)" "fmul_int t H = Inr (Finite th)"
    and "fmul_int (fadd l w) W = Inr (Finite rw)" "fmul_int (fadd t h) H = Inr (Finite bh)"
  shows "pixel_box W H face = Inr (trunc lw, trunc th, trunc rw, trunc bh)"
  using assms by (simp add: pixel_box_def)

lemma pixel_box_detected_entity:
  assumes "fmul_int l W = Inr (Finite lw)" "fmul_int t H = Inr (Finite th)"
    and "fmul_int (fadd l w) W = Inr (Finite rw)" "fmul_int (fadd t h) H = Inr (Finite bh)"
  shows "pixel_box W H (detected_entity l t w h c n) =
    Inr (trunc lw, trunc th, trunc rw, trunc bh)"
  using assms by (simp add: pixel_box_def detected_entity_def)

section \<open>The drawing loop\<close>

text \<open>
  An iteration raises when the pixel box does, or when the library refuses a
  call for a face above the threshold; otherwise it appends \<open>drawn_for\<close> to
  the drawing. Annotation positions do not depend on the font.
\<close>

lemma annotate_eq:
  "annotate draw fnt (l, t, r, b) face img =
     (case rectangle_fault draw (l, t, r, b) of
        Some e \<Rightarrow> Inl e
      | None \<Rightarrow>
          (case label_fault draw (l, t - 20) (get_name face) of
             Some e \<Rightarrow> Inl e
           | None \<Rightarrow>
               Inr (img\<lparr>drawn := drawn img @
                 [RectangleOutline (l, t, r, b) ''red'' 3,
                  RectangleFill (fnt (l, t - 20) (get_name face)) ''red'',
                  Text (l, t - 20) (get_name face) ''white'']\<rparr>)))"
  by (simp add: annotate_def rectangle_def draw_label_def Let_def split: option.splits)

lemma draw_face_cases:
  assumes "pixel_box W H face = Inr (l, t, r, b)"
  shows "draw_face draw fnt W H face img =
    (if gt_int (get_confidence face) 90
     then (case rectangle_fault draw (l, t, r, b) of
        Some e \<Rightarrow> Inl e
      | None \<Rightarrow>
          (case label_fault draw (l, t - 20) (get_name face) of
             Some e \<Rightarrow> Inl e
           | None \<Rightarrow>
               Inr (img\<lparr>drawn := drawn img @
                 [RectangleOutline (l, t, r, b) ''red'' 3,
                  RectangleFill (fnt (l, t - 20) (get_name face)) ''red'',
                  Text (l, t - 20) (get_name face) ''white'']\<rparr>)))
     else Inr img)"
  by (simp add: draw_face_def assms annotate_eq)

lemma draw_face_box_raises:
  assumes "pixel_box W H face = Inl e"
  shows "draw_face draw fnt W H face img = Inl e"
  by (simp add: draw_face_def assms)


lemma drawn_unchanged [simp]: "img\<lparr>drawn := drawn img @ []\<rparr> = img"
  by simp





lemma draw_faces_below:
  assumes "\<forall>face \<in> set faces. \<exists>b. pixel_box W H face = Inr b"
    and "\<forall>face \<in> set faces. \<not> gt_int (get_confidence face) 90"
  shows "draw_faces draw fnt W H faces img = Inr img"
  using assms
proof (induction faces)
  case Nil
  show ?case by simp
next
  case (Cons face faces)
  from Cons.prems obtain bx where "pixel_box W H face = Inr bx" by auto
  moreover obtain l t r b where "bx = (l, t, r, b)" by (cases bx) auto
  ultimately have b: "pixel_box W H face = Inr (l, t, r, b)" by simp
  have c: "\<not> gt_int (get_confidence face) 90" using Cons.prems by simp
  have "draw_faces draw fnt W H faces img = Inr img" using Cons by simp
  then show ?case by (simp add: draw_face_cases [OF b] c)
qed

lemma gt_int_Finite: "gt_int (PyFloat (Finite c)) n \<longleftrightarrow> of_int n < c"
  by simp

lemma positions_append: "positions (xs @ ys) = positions xs @ positions ys"
  by (induction xs rule: positions.induct) simp_all

lemma draw_face_positions:
  assumes "positions (drawn img1) = positions (drawn img2)"
  shows "map_sum id (\<lambda>i. positions (drawn i)) (draw_face draw f1 W H face img1) =
         map_sum id (\<lambda>i. positions (drawn i)) (draw_face draw f2 W H face img2)"
proof (cases "pixel_box W H face")
  case (Inl e)
  then show ?thesis by (simp add: draw_face_box_raises)
next
  case (Inr bx)
  obtain l t r b where "bx = (l, t, r, b)" by (cases bx) auto
  with Inr have b: "pixel_box W H face = Inr (l, t, r, b)" by simp
  show ?thesis
    using assms
    by (simp add: draw_face_cases [OF b] positions_append split: option.splits)
qed

lemma draw_faces_positions:
  assumes "positions (drawn img1) = positions (drawn img2)"
  shows "map_sum id (\<lambda>i. positions (drawn i)) (draw_faces draw f1 W H faces img1) =
         map_sum id (\<lambda>i. positions (drawn i)) (draw_faces draw f2 W H faces img2)"
  using assms
proof (induction faces arbitrary: img1 img2)
  case Nil
  then show ?case by simp
next
  case (Cons face faces)
  note p = draw_face_positions [OF Cons.prems, of draw f1 W H face f2]
  show ?case
  proof (cases "draw_face draw f1 W H face img1")
    case (Inl e)
    with p have "draw_face draw f2 W H face img2 = Inl e"
      by (cases "draw_face draw f2 W H face img2") simp_all
    with Inl show ?thesis by simp
  next
    case (Inr i1)
    with p obtain i2 where i2: "draw_face draw f2 W H face img2 = Inr i2"
      and q: "positions (drawn i1) = positions (drawn i2)"
      by (cases "draw_face draw f2 W H face img2") simp_all
    from Cons.IH [OF q] Inr i2 show ?thesis by simp
  qed
qed

lemma example_rectangle_fault:
  "rectangle_fault example_draw (x0, y0, x1, y1) =
     (if x1 < x0 then Some (ValueError ''x1 must be greater than or equal to x0'')
      else if y1 < y0 then Some (ValueError ''y1 must be greater than or equal to y0'')
      else None)"
  by (simp add: example_draw_def)

lemma example_label_fault [simp]: "label_fault example_draw xy txt = None"
  by (simp add: example_draw_def)

lemma example_pixel_box:
  "pixel_box 1000 500
     (detected_entity (round_double (1 / 10)) (round_double (1 / 5))
        (round_double (3 / 10)) (round_double (2 / 5)) c n) = Inr (100, 100, 400, 300)"
proof -
  have "pixel_box 1000 500
      (detected_entity (round_double (1 / 10)) (round_double (1 / 5))
         (round_double (3 / 10)) (round_double (2 / 5)) c n) =
      Inr (trunc 100, trunc 100, trunc 400, trunc (5277655813324801 / 17592186044416))"
    using example_left example_top example_right example_bottom
    by (rule pixel_box_detected_entity)
  then show ?thesis by (simp only: trunc_numeral trunc_300)
qed

lemma get_confidence_entity [simp]:
  "get_confidence (detected_entity l t w h c n) = (case c of None \<Rightarrow> PyInt 0 | Some x \<Rightarrow> PyFloat x)"
  by (simp add: get_confidence_def detected_entity_def)

lemma get_name_entity [simp]:
  "get_name (detected_entity l t w h c n) = (case n of None \<Rightarrow> ''Desconhecido'' | Some x \<Rightarrow> x)"
  by (simp add: get_name_def detected_entity_def)

subsection \<open>A box outside the image\<close>

lemma round_double_neg:
  assumes "q < 0" "round_double (- q) = Finite r"
  shows "round_double q = Finite (- r)"
proof -
  have a: "\<bar>- q\<bar> = \<bar>q\<bar>" by simp
  show ?thesis
    using assms unfolding round_double_def Let_def a
    by (simp split: if_splits)
qed

lemma rd_1500: "round_double (3 / 2 * 1000) = Finite 1500"
  using round_double_eqI [of "10" "3 / 2 * 1000" "- 42" 6597069766656000] by simp

lemma rd_7_4: "round_double (3 / 2 + 1 / 4) = Finite (7 / 4)"
  using round_double_eqI [of "0" "3 / 2 + 1 / 4" "- 52" 7881299347898368] by simp

lemma rd_1750: "round_double (7 / 4 * 1000) = Finite 1750"
  using round_double_eqI [of "10" "7 / 4 * 1000" "- 42" 7696581394432000] by simp

lemma rd_250: "round_double (1 / 2 * 500) = Finite 250"
  using round_double_eqI [of "7" "1 / 2 * 500" "- 45" 8796093022208000] by simp

lemma rd_1_4: "round_double (1 / 4) = Finite (1 / 4)"
  using round_double_eqI [of "- 2" "1 / 4" "- 54" 4503599627370496] by simp

lemma rd_125: "round_double (1 / 4 * 500) = Finite 125"
  using round_double_eqI [of "6" "1 / 4 * 500" "- 46" 8796093022208000] by simp


lemma rd_m250: "round_double (- (1 / 2) * 500) = Finite (- 250)"
  using round_double_neg [of "- (1 / 2) * 500" 250] rd_250 by simp

lemma rd_m1_4: "round_double (- (1 / 2) + 1 / 4) = Finite (- (1 / 4))"
  using round_double_neg [of "- (1 / 2) + 1 / 4" "1 / 4"] rd_1_4 by simp

lemma rd_m125: "round_double (- (1 / 4) * 500) = Finite (- 125)"
  using round_double_neg [of "- (1 / 4) * 500" 125] rd_125 by simp

lemma outside_left: "fmul_int (Finite (3 / 2)) 1000 = Inr (Finite 1500)"
  by (simp only: fmul_int_def float_of_int_1000 and_then_def sum.case fmul.simps rd_1500)

lemma outside_top: "fmul_int (Finite (- (1 / 2))) 500 = Inr (Finite (- 250))"
  by (simp only: fmul_int_def float_of_int_500 and_then_def sum.case fmul.simps rd_m250)

lemma outside_right: "fmul_int (fadd (Finite (3 / 2)) (Finite (1 / 4))) 1000 = Inr (Finite 1750)"
  by (simp only: fmul_int_def float_of_int_1000 and_then_def sum.case fadd.simps rd_7_4
      fmul.simps rd_1750)

lemma outside_bottom:
  "fmul_int (fadd (Finite (- (1 / 2))) (Finite (1 / 4))) 500 = Inr (Finite (- 125))"
  by (simp only: fmul_int_def float_of_int_500 and_then_def sum.case fadd.simps rd_m1_4
      fmul.simps rd_m125)

lemma trunc_neg_numeral [simp]: "trunc (- numeral n) = - numeral n"
  using trunc_of_int [of "- numeral n"] by simp

lemma outside_pixel_box:
  "pixel_box 1000 500
     (detected_entity (Finite (3 / 2)) (Finite (- (1 / 2))) (Finite (1 / 4)) (Finite (1 / 4)) c n) =
   Inr (1500, - 250, 1750, - 125)"
proof -
  have "pixel_box 1000 500
     (detected_entity (Finite (3 / 2)) (Finite (- (1 / 2))) (Finite (1 / 4)) (Finite (1 / 4)) c n) =
   Inr (trunc 1500, trunc (- 250), trunc 1750, trunc (- 125))"
    using outside_left outside_top outside_right outside_bottom
    by (rule pixel_box_detected_entity)
  then show ?thesis by (simp only: trunc_numeral trunc_neg_numeral)
qed

subsection \<open>A box whose corners are out of order\<close>

lemma rd_half_1000: "round_double (1 / 2 * 1000) = Finite 500"
  using round_double_eqI [of "8" "1 / 2 * 1000" "- 44" 8796093022208000] by simp

lemma rd_64th_500: "round_double (1 / 64 * 500) = Finite (125 / 16)"
  using round_double_eqI [of "2" "1 / 64 * 500" "- 50" 8796093022208000] by simp

lemma rd_half_minus_quarter: "round_double (1 / 2 + - (1 / 4)) = Finite (1 / 4)"
  using round_double_eqI [of "- 2" "1 / 2 + - (1 / 4)" "- 54" 4503599627370496] by simp

lemma rd_quarter_1000: "round_double (1 / 4 * 1000) = Finite 250"
  using round_double_eqI [of "7" "1 / 4 * 1000" "- 45" 8796093022208000] by simp

lemma rd_17_64: "round_double (1 / 64 + 1 / 4) = Finite (17 / 64)"
  using round_double_eqI [of "- 2" "1 / 64 + 1 / 4" "- 54" 4785074604081152] by simp

lemma rd_17_64_500: "round_double (17 / 64 * 500) = Finite (2125 / 16)"
  using round_double_eqI [of "7" "17 / 64 * 500" "- 45" 4672924418048000] by simp

lemma inverted_left: "fmul_int (Finite (1 / 2)) 1000 = Inr (Finite 500)"
  by (simp only: fmul_int_def float_of_int_1000 and_then_def sum.case fmul.simps rd_half_1000)

lemma inverted_top: "fmul_int (Finite (1 / 64)) 500 = Inr (Finite (125 / 16))"
  by (simp only: fmul_int_def float_of_int_500 and_then_def sum.case fmul.simps rd_64th_500)

lemma inverted_right:
  "fmul_int (fadd (Finite (1 / 2)) (Finite (- (1 / 4)))) 1000 = Inr (Finite 250)"
  by (simp only: fmul_int_def float_of_int_1000 and_then_def sum.case fadd.simps
      rd_half_minus_quarter fmul.simps rd_quarter_1000)

lemma inverted_bottom:
  "fmul_int (fadd (Finite (1 / 64)) (Finite (1 / 4))) 500 = Inr (Finite (2125 / 16))"
  by (simp only: fmul_int_def float_of_int_500 and_then_def sum.case fadd.simps rd_17_64
      fmul.simps rd_17_64_500)

lemma trunc_125_16: "trunc (125 / 16) = 7"
  by (rule trunc_nonneg_eqI) simp_all

lemma trunc_2125_16: "trunc (2125 / 16) = 132"
  by (rule trunc_nonneg_eqI) simp_all

lemma inverted_pixel_box:
  "pixel_box 1000 500
     (detected_entity (Finite (1 / 2)) (Finite (1 / 64)) (Finite (- (1 / 4))) (Finite (1 / 4)) c n) =
   Inr (500, 7, 250, 132)"
proof -
  have "pixel_box 1000 500
     (detected_entity (Finite (1 / 2)) (Finite (1 / 64)) (Finite (- (1 / 4))) (Finite (1 / 4)) c n) =
   Inr (trunc 500, trunc (125 / 16), trunc 250, trunc (2125 / 16))"
    using inverted_left inverted_top inverted_right inverted_bottom
    by (rule pixel_box_detected_entity)
  then show ?thesis by (simp only: trunc_numeral trunc_125_16 trunc_2125_16)
qed

text \<open>
  The example library refuses the outline of this box, so the iteration of a
  face above the threshold raises and draws nothing; below the threshold the
  library is not called.
\<close>

lemma inverted_box_refused:
  "draw_face example_draw fnt 1000 500
     (detected_entity (Finite (1 / 2)) (Finite (1 / 64)) (Finite (- (1 / 4))) (Finite (1 / 4))
        (Some (Finite 95)) n) img =
   Inl (ValueError ''x1 must be greater than or equal to x0'')"
  by (simp add: draw_face_cases [OF inverted_pixel_box] example_rectangle_fault)

lemma inverted_box_skipped:
  "draw_face example_draw fnt 1000 500
     (detected_entity (Finite (1 / 2)) (Finite (1 / 64)) (Finite (- (1 / 4))) (Finite (1 / 4))
        (Some (Finite 90)) n) img =
   Inr img"
  by (simp add: draw_face_cases [OF inverted_pixel_box])

section \<open>Pixel coordinates\<close>

text \<open>
  Claim C1. For an entity whose bounding box holds the fractions \<open>l\<close>, \<open>t\<close>,
  \<open>w\<close>, \<open>h\<close>, on an image of \<open>W\<close> by \<open>H\<close> pixels, the pixel box is
  \<open>left = int(l * W)\<close>, \<open>top = int(t * H)\<close>, \<open>right = int((l + w) * W)\<close>,
  \<open>bottom = int((t + h) * H)\<close>, in float arithmetic, whenever the four products
  are finite; \<open>int\<close> truncates toward zero. In particular the box 0.1, 0.2,
  0.3, 0.4 on a 1000 by 500 image gives (100, 100)-(400, 300).
\<close>

theorem pixel_box_absolute:
  assumes "Face face = Some cf" "BoundingBox cf = Some b"
    and "Left b = Some l" "Top b = Some t" "Width b = Some w" "Height b = Some h"
    and "fmul_int l W = Inr (Finite lw)" "fmul_int t H = Inr (Finite th)"
    and "fmul_int (fadd l w) W = Inr (Finite rw)" "fmul_int (fadd t h) H = Inr (Finite bh)"
  shows "pixel_box W H face = Inr (trunc lw, trunc th, trunc rw, trunc bh) \<and>
    (\<forall>q. (0 \<le> q \<longrightarrow> 0 \<le> trunc q \<and> of_int (trunc q) \<le> q \<and> q < of_int (trunc q) + 1) \<and>
         (q \<le> 0 \<longrightarrow> trunc q \<le> 0 \<and> q \<le> of_int (trunc q) \<and> of_int (trunc q) - 1 < q)) \<and>
    pixel_box 1000 500
      (detected_entity (round_double (1 / 10)) (round_double (1 / 5))
         (round_double (3 / 10)) (round_double (2 / 5)) c n) =
      Inr (100, 100, 400, 300)"
proof -
  have formula: "pixel_box W H face = Inr (trunc lw, trunc th, trunc rw, trunc bh)"
    using assms by (rule pixel_box_Inr)
  have toward_zero:
    "\<forall>q. (0 \<le> q \<longrightarrow> 0 \<le> trunc q \<and> of_int (trunc q) \<le> q \<and> q < of_int (trunc q) + 1) \<and>
         (q \<le> 0 \<longrightarrow> trunc q \<le> 0 \<and> q \<le> of_int (trunc q) \<and> of_int (trunc q) - 1 < q)"
    using trunc_toward_zero by blast
  have "pixel_box 1000 500
      (detected_entity (round_double (1 / 10)) (round_double (1 / 5))
         (round_double (3 / 10)) (round_double (2 / 5)) c n) =
      Inr (trunc 100, trunc 100, trunc 400, trunc (5277655813324801 / 17592186044416))"
    using example_left example_top example_right example_bottom
    by (rule pixel_box_detected_entity)
  then have example: "pixel_box 1000 500
      (detected_entity (round_double (1 / 10)) (round_double (1 / 5))
         (round_double (3 / 10)) (round_double (2 / 5)) c n) =
      Inr (100, 100, 400, 300)"
    by (simp only: trunc_numeral trunc_300)
  from formula toward_zero example show ?thesis by (intro conjI)
qed

theorem pixel_box_absolute_witness:
  "pixel_box 1000 500
     (detected_entity (round_double (1 / 10)) (round_double (1 / 5))
        (round_double (3 / 10)) (round_double (2 / 5)) None None) =
     Inr (100, 100, 400, 300)"
proof -
  let ?b = "\<lparr>Width = Some (round_double (3 / 10)), Height = Some (round_double (2 / 5)),
    Left = Some (round_double (1 / 10)), Top = Some (round_double (1 / 5))\<rparr>"
  let ?face = "detected_entity (round_double (1 / 10)) (round_double (1 / 5))
    (round_double (3 / 10)) (round_double (2 / 5)) None None"
  have f: "Face ?face = Some \<lparr>BoundingBox = Some ?b\<rparr>"
    by (simp add: detected_entity_def)
  have b: "BoundingBox \<lparr>BoundingBox = Some ?b\<rparr> = Some ?b"
    by simp
  have l: "Left ?b = Some (round_double (1 / 10))" and t: "Top ?b = Some (round_double (1 / 5))"
    and w: "Width ?b = Some (round_double (3 / 10))" and h: "Height ?b = Some (round_double (2 / 5))"
    by simp_all
  show ?thesis
    using pixel_box_absolute [OF f b l t w h example_left example_top example_right example_bottom]
    by (simp only: trunc_numeral trunc_300)
qed

section \<open>Threshold\<close>



section \<open>Label\<close>

text \<open>
  The label of an entity without a name is \<open>Desconhecido\<close>, not \<open>Unknown\<close>:
  an entity with confidence 95 and no name on the 1000 by 500 image.
\<close>

theorem label_default_counterexample:
  "draw_face example_draw fixed_width_font 1000 500
     (detected_entity (round_double (1 / 10)) (round_double (1 / 5))
        (round_double (3 / 10)) (round_double (2 / 5)) (Some (Finite 95)) None)
     \<lparr>size = (1000, 500), pixels = ''capr'', drawn = []\<rparr> =
   Inr \<lparr>size = (1000, 500), pixels = ''capr'',
        drawn = [RectangleOutline (100, 100, 400, 300) ''red'' 3,
                 RectangleFill (100, 80, 220, 100) ''red'',
                 Text (100, 80) ''Desconhecido'' ''white'']\<rparr> \<and>
   draw_face example_draw fixed_width_font 1000 500
     (detected_entity (round_double (1 / 10)) (round_double (1 / 5))
        (round_double (3 / 10)) (round_double (2 / 5)) (Some (Finite 95)) None)
     \<lparr>size = (1000, 500), pixels = ''capr'', drawn = []\<rparr> \<noteq>
   Inr \<lparr>size = (1000, 500), pixels = ''capr'',
        drawn = [RectangleOutline (100, 100, 400, 300) ''red'' 3,
                 RectangleFill (100, 80, 170, 100) ''red'',
                 Text (100, 80) ''Unknown'' ''white'']\<rparr>"
  by (simp add: draw_face_cases [OF example_pixel_box] example_rectangle_fault
      fixed_width_font_def)

text \<open>
  Claim C6, amended. An entity is drawn by the Annotator when its iteration
  returns and has changed the image. For every entity drawn, the label text
  is the entity's name, defaulting to \<open>Desconhecido\<close> when the name is absent,
  and the label is positioned at \<open>(left, top - 20)\<close>: the text and the filled
  background the font gives for that position. An entity above the threshold
  whose calls the library does not refuse is drawn so.
\<close>

theorem label_text_and_position:
  "(\<forall>img'. draw_face draw fnt W H face img = Inr img' \<and> img' \<noteq> img \<longrightarrow>
      (\<exists>l t r b. pixel_box W H face = Inr (l, t, r, b) \<and>
         img' = img\<lparr>drawn := drawn img @
           [RectangleOutline (l, t, r, b) ''red'' 3,
            RectangleFill
              (fnt (l, t - 20) (case Name face of None \<Rightarrow> ''Desconhecido'' | Some n \<Rightarrow> n))
              ''red'',
            Text (l, t - 20) (case Name face of None \<Rightarrow> ''Desconhecido'' | Some n \<Rightarrow> n)
              ''white'']\<rparr>)) \<and>
   (\<forall>l t r b. pixel_box W H face = Inr (l, t, r, b) \<and> gt_int (get_confidence face) 90 \<and>
      rectangle_fault draw (l, t, r, b) = None \<and>
      label_fault draw (l, t - 20)
        (case Name face of None \<Rightarrow> ''Desconhecido'' | Some n \<Rightarrow> n) = None \<longrightarrow>
      draw_face draw fnt W H face img =
        Inr (img\<lparr>drawn := drawn img @
           [RectangleOutline (l, t, r, b) ''red'' 3,
            RectangleFill
              (fnt (l, t - 20) (case Name face of None \<Rightarrow> ''Desconhecido'' | Some n \<Rightarrow> n))
              ''red'',
            Text (l, t - 20) (case Name face of None \<Rightarrow> ''Desconhecido'' | Some n \<Rightarrow> n)
              ''white'']\<rparr>))"
proof (intro conjI allI impI)
  fix img'
  assume a: "draw_face draw fnt W H face img = Inr img' \<and> img' \<noteq> img"
  show "\<exists>l t r b. pixel_box W H face = Inr (l, t, r, b) \<and>
         img' = img\<lparr>drawn := drawn img @
           [RectangleOutline (l, t, r, b) ''red'' 3,
            RectangleFill
              (fnt (l, t - 20) (case Name face of None \<Rightarrow> ''Desconhecido'' | Some n \<Rightarrow> n))
              ''red'',
            Text (l, t - 20) (case Name face of None \<Rightarrow> ''Desconhecido'' | Some n \<Rightarrow> n)
              ''white'']\<rparr>"
  proof (cases "pixel_box W H face")
    case (Inl e)
    with a show ?thesis by (simp add: draw_face_box_raises)
  next
    case (Inr bx)
    obtain l t r b where "bx = (l, t, r, b)" by (cases bx) auto
    with Inr have b: "pixel_box W H face = Inr (l, t, r, b)" by simp
    from a show ?thesis
      by (auto simp: draw_face_cases [OF b] b get_name_def split: if_splits option.splits)
  qed
next
  fix l t r b
  assume "pixel_box W H face = Inr (l, t, r, b) \<and> gt_int (get_confidence face) 90 \<and>
      rectangle_fault draw (l, t, r, b) = None \<and>
      label_fault draw (l, t - 20)
        (case Name face of None \<Rightarrow> ''Desconhecido'' | Some n \<Rightarrow> n) = None"
  then show "draw_face draw fnt W H face img =
        Inr (img\<lparr>drawn := drawn img @
           [RectangleOutline (l, t, r, b) ''red'' 3,
            RectangleFill
              (fnt (l, t - 20) (case Name face of None \<Rightarrow> ''Desconhecido'' | Some n \<Rightarrow> n))
              ''red'',
            Text (l, t - 20) (case Name face of None \<Rightarrow> ''Desconhecido'' | Some n \<Rightarrow> n)
              ''white'']\<rparr>)"
    by (simp add: draw_face_cases [of W H face l t r b] get_name_def)
qed

theorem label_text_and_position_witness:
  "draw_face example_draw fixed_width_font 1000 500
     (detected_entity (round_double (1 / 10)) (round_double (1 / 5))
        (round_double (3 / 10)) (round_double (2 / 5)) (Some (Finite 95)) (Some ''Ada''))
     \<lparr>size = (1000, 500), pixels = ''capr'', drawn = []\<rparr> =
   Inr \<lparr>size = (1000, 500), pixels = ''capr'',
        drawn = [RectangleOutline (100, 100, 400, 300) ''red'' 3,
                 RectangleFill (100, 80, 130, 100) ''red'',
                 Text (100, 80) ''Ada'' ''white'']\<rparr>"
proof -
  let ?face = "detected_entity (round_double (1 / 10)) (round_double (1 / 5))
        (round_double (3 / 10)) (round_double (2 / 5)) (Some (Finite 95)) (Some ''Ada'')"
  have h: "pixel_box 1000 500 ?face = Inr (100, 100, 400, 300) \<and>
      gt_int (get_confidence ?face) 90 \<and>
      rectangle_fault example_draw (100, 100, 400, 300) = None \<and>
      label_fault example_draw (100, 100 - 20)
        (case Name ?face of None \<Rightarrow> ''Desconhecido'' | Some n \<Rightarrow> n) = None"
    by (simp add: example_pixel_box example_rectangle_fault)
  from label_text_and_position [of example_draw fixed_width_font 1000 500 ?face
      "\<lparr>size = (1000, 500), pixels = ''capr'', drawn = []\<rparr>",
      THEN conjunct2, rule_format, OF h]
  show ?thesis
    by (simp add: detected_entity_def fixed_width_font_def)
qed

section \<open>Determinism of the annotation positions\<close>

text \<open>
  Claim C7. For fixed image dimensions and a fixed list of entities, two runs
  of the Annotator's loop give the same outcome as far as positions go: the
  same exception, or the same rectangle coordinates and label positions,
  whatever the fonts and the pixels of the two images, when both start from
  images with the same positions already drawn (none, for an opened file).
\<close>

theorem positions_deterministic:
  assumes "positions (drawn img1) = positions (drawn img2)"
  shows "map_sum id (\<lambda>i. positions (drawn i)) (draw_faces draw f1 W H faces img1) =
         map_sum id (\<lambda>i. positions (drawn i)) (draw_faces draw f2 W H faces img2)"
  using assms by (rule draw_faces_positions)

theorem positions_deterministic_witness:
  "map_sum id (\<lambda>i. positions (drawn i))
     (draw_faces example_draw fixed_width_font 1000 500
        [detected_entity (round_double (1 / 10)) (round_double (1 / 5))
           (round_double (3 / 10)) (round_double (2 / 5)) (Some (Finite 95)) (Some ''Ada'')]
        \<lparr>size = (1000, 500), pixels = ''capr'', drawn = []\<rparr>) =
   map_sum id (\<lambda>i. positions (drawn i))
     (draw_faces example_draw (\<lambda>xy txt. (0, 0, 0, 0)) 1000 500
        [detected_entity (round_double (1 / 10)) (round_double (1 / 5))
           (round_double (3 / 10)) (round_double (2 / 5)) (Some (Finite 95)) (Some ''Ada'')]
        \<lparr>size = (1000, 500), pixels = ''riana'', drawn = []\<rparr>)"
proof -
  have "positions (drawn \<lparr>size = (1000, 500), pixels = ''capr'', drawn = []\<rparr>) =
        positions (drawn \<lparr>size = (1000 :: int, 500 :: int), pixels = ''riana'', drawn = []\<rparr>)"
    by simp
  then show ?thesis by (rule positions_deterministic)
qed

section \<open>Absent confidence\<close>

text \<open>
  Claim C9. For an entity whose record has no confidence field, the
  confidence is taken as 0, which is not above 90, so nothing is drawn for
  it: the iteration returns the image unchanged, unless the pixel box itself
  raises.
\<close>

theorem confidence_absent_skipped:
  assumes "MatchConfidence face = None"
  shows "get_confidence face = PyInt 0 \<and> \<not> gt_int (get_confidence face) 90 \<and>
    drawn_for fnt W H face = [] \<and>
    (case draw_face draw fnt W H face img of
       Inr img' \<Rightarrow> img' = img
     | Inl e \<Rightarrow> pixel_box W H face = Inl e)"
proof -
  have c: "get_confidence face = PyInt 0" using assms by (simp add: get_confidence_def)
  have d: "drawn_for fnt W H face = []"
    by (cases "pixel_box W H face") (simp_all add: drawn_for_def c split: prod.splits)
  have f: "draw_face draw fnt W H face img =
      (case pixel_box W H face of Inl e \<Rightarrow> Inl e | Inr b \<Rightarrow> Inr img)"
    by (cases "pixel_box W H face") (simp_all add: draw_face_def c)
  show ?thesis
    by (cases "pixel_box W H face") (simp_all add: c d f)
qed

theorem confidence_absent_skipped_witness:
  "draw_face example_draw fixed_width_font 1000 500
     (detected_entity (round_double (1 / 10)) (round_double (1 / 5))
        (round_double (3 / 10)) (round_double (2 / 5)) None (Some ''Ada''))
     \<lparr>size = (1000, 500), pixels = ''capr'', drawn = []\<rparr> =
   Inr \<lparr>size = (1000, 500), pixels = ''capr'', drawn = []\<rparr>"
proof -
  have n: "MatchConfidence (detected_entity (round_double (1 / 10)) (round_double (1 / 5))
        (round_double (3 / 10)) (round_double (2 / 5)) None (Some ''Ada'')) = None"
    by (simp add: detected_entity_def)
  show ?thesis
    using confidence_absent_skipped [OF n, where fnt = fixed_width_font and W = 1000
        and H = 500 and draw = example_draw
        and img = "\<lparr>size = (1000, 500), pixels = ''capr'', drawn = []\<rparr>"]
    by (simp add: draw_face_cases [OF example_pixel_box])
qed

section \<open>No clamping\<close>

text \<open>
  Claim C10. The pixel box is computed by the same formula for any fractions,
  with no restriction to the unit interval, and may lie outside the image:
  Left 1.5, Top -0.5, Width 0.25, Height 0.25 on a 1000 by 500 image give
  (1500, -250)-(1750, -125). The script checks no coordinate: an iteration
  raises only what the pixel box or the library raises, and for an entity
  above the threshold it passes the box to the outline call as computed. For
  such an entity whose top is below 20 pixels, unless the library refuses the
  box, the label calls get the position \<open>(left, top - 20)\<close>, whose vertical
  coordinate is negative, and the label is drawn there if they do not raise.
\<close>

theorem no_clamping:
  "(\<forall>l t w h W H lw th rw bh c n.
      fmul_int l W = Inr (Finite lw) \<and> fmul_int t H = Inr (Finite th) \<and>
      fmul_int (fadd l w) W = Inr (Finite rw) \<and> fmul_int (fadd t h) H = Inr (Finite bh) \<longrightarrow>
      pixel_box W H (detected_entity l t w h c n) =
        Inr (trunc lw, trunc th, trunc rw, trunc bh)) \<and>
   pixel_box 1000 500
     (detected_entity (Finite (3 / 2)) (Finite (- (1 / 2))) (Finite (1 / 4)) (Finite (1 / 4)) c0 n0) =
     Inr (1500, - 250, 1750, - 125) \<and>
   (\<forall>draw fnt W H face img e.
      draw_face draw fnt W H face img = Inl e \<longrightarrow>
      pixel_box W H face = Inl e \<or>
      (\<exists>l t r b. pixel_box W H face = Inr (l, t, r, b) \<and> gt_int (get_confidence face) 90 \<and>
         (rectangle_fault draw (l, t, r, b) = Some e \<or>
          label_fault draw (l, t - 20) (get_name face) = Some e))) \<and>
   (\<forall>draw fnt W H face img l t r b.
      pixel_box W H face = Inr (l, t, r, b) \<and> gt_int (get_confidence face) 90 \<and> t < 20 \<longrightarrow>
      draw_face draw fnt W H face img =
        (case rectangle_fault draw (l, t, r, b) of
           Some e \<Rightarrow> Inl e
         | None \<Rightarrow>
             (case label_fault draw (l, t - 20) (get_name face) of
                Some e \<Rightarrow> Inl e
              | None \<Rightarrow>
                  Inr (img\<lparr>drawn := drawn img @
                    [RectangleOutline (l, t, r, b) ''red'' 3,
                     RectangleFill (fnt (l, t - 20) (get_name face)) ''red'',
                     Text (l, t - 20) (get_name face) ''white'']\<rparr>))) \<and>
      t - 20 < 0)"
proof (intro conjI allI impI)
  fix l t w h W H lw th rw bh c n
  assume "fmul_int l W = Inr (Finite lw) \<and> fmul_int t H = Inr (Finite th) \<and>
      fmul_int (fadd l w) W = Inr (Finite rw) \<and> fmul_int (fadd t h) H = Inr (Finite bh)"
  then show "pixel_box W H (detected_entity l t w h c n) =
        Inr (trunc lw, trunc th, trunc rw, trunc bh)"
    by (simp add: pixel_box_detected_entity)
next
  show "pixel_box 1000 500
     (detected_entity (Finite (3 / 2)) (Finite (- (1 / 2))) (Finite (1 / 4)) (Finite (1 / 4)) c0 n0) =
     Inr (1500, - 250, 1750, - 125)"
    by (rule outside_pixel_box)
next
  fix draw :: image_draw and fnt :: font and W H face img e
  assume a: "draw_face draw fnt W H face img = Inl e"
  show "pixel_box W H face = Inl e \<or>
      (\<exists>l t r b. pixel_box W H face = Inr (l, t, r, b) \<and> gt_int (get_confidence face) 90 \<and>
         (rectangle_fault draw (l, t, r, b) = Some e \<or>
          label_fault draw (l, t - 20) (get_name face) = Some e))"
  proof (cases "pixel_box W H face")
    case (Inl e')
    with a show ?thesis by (simp add: draw_face_box_raises)
  next
    case (Inr bx)
    obtain l t r b where "bx = (l, t, r, b)" by (cases bx) auto
    with Inr have b: "pixel_box W H face = Inr (l, t, r, b)" by simp
    from a show ?thesis
      by (auto simp: draw_face_cases [OF b] b split: if_splits option.splits)
  qed
next
  fix draw :: image_draw and fnt :: font and W H face img l t r b
  assume a: "pixel_box W H face = Inr (l, t, r, b) \<and> gt_int (get_confidence face) 90 \<and> t < 20"
  then show "draw_face draw fnt W H face img =
        (case rectangle_fault draw (l, t, r, b) of
           Some e \<Rightarrow> Inl e
         | None \<Rightarrow>
             (case label_fault draw (l, t - 20) (get_name face) of
                Some e \<Rightarrow> Inl e
              | None \<Rightarrow>
                  Inr (img\<lparr>drawn := drawn img @
                    [RectangleOutline (l, t, r, b) ''red'' 3,
                     RectangleFill (fnt (l, t - 20) (get_name face)) ''red'',
                     Text (l, t - 20) (get_name face) ''white'']\<rparr>)))"
    by (simp add: draw_face_cases [of W H face l t r b])
  from a show "t - 20 < 0" by simp
qed

theorem no_clamping_witness:
  "draw_face example_draw fixed_width_font 1000 500
     (detected_entity (Finite (3 / 2)) (Finite (- (1 / 2))) (Finite (1 / 4)) (Finite (1 / 4))
        (Some (Finite 95)) (Some ''Ada''))
     \<lparr>size = (1000, 500), pixels = ''capr'', drawn = []\<rparr> =
   Inr \<lparr>size = (1000, 500), pixels = ''capr'',
        drawn = [RectangleOutline (1500, - 250, 1750, - 125) ''red'' 3,
                 RectangleFill (1500, - 270, 1530, - 250) ''red'',
                 Text (1500, - 270) ''Ada'' ''white'']\<rparr>"
proof -
  let ?face = "detected_entity (Finite (3 / 2)) (Finite (- (1 / 2))) (Finite (1 / 4))
    (Finite (1 / 4)) (Some (Finite 95)) (Some ''Ada'')"
  have h: "pixel_box 1000 500 ?face = Inr (1500, - 250, 1750, - 125) \<and>
      gt_int (get_confidence ?face) 90 \<and> (- 250 :: int) < 20"
    by (simp add: outside_pixel_box)
  from no_clamping [of None None, THEN conjunct2, THEN conjunct2, THEN conjunct2, rule_format,
      OF h, of example_draw fixed_width_font "\<lparr>size = (1000, 500), pixels = ''capr'', drawn = []\<rparr>"]
  show ?thesis
    by (simp add: fixed_width_font_def example_rectangle_fault)
qed

section \<open>The batch loop\<close>

text \<open>
  Every iteration prints exactly one line: the line of \<open>draw_face_boxes\<close>,
  the line for a response without faces, or the line of the handler.
\<close>

lemma stdout_print [simp]: "stdout (print l w) = stdout w @ [l]"
  by (simp add: print_def)

lemma files_print [simp]: "files (print l w) = files w"
  by (simp add: print_def)

lemma run_batch_Nil [simp]: "run_batch ev [] w = w"
  by (simp add: run_batch_def)

lemma run_batch_Cons [simp]:
  "run_batch ev (f # fs) w = run_batch ev fs (iteration ev f w)"
  by (simp add: run_batch_def)

lemma draw_face_boxes_stdout:
  "draw_face_boxes ev ip op fs w = (r, w') \<Longrightarrow>
     stdout w' = (case r of None \<Rightarrow> stdout w @ [''Imagem processada e salva em: '' @ op]
                  | Some e \<Rightarrow> stdout w)"
  by (auto simp: draw_face_boxes_def split: option.splits contents.splits sum.splits prod.splits)

lemma try_body_stdout:
  assumes "try_body ev f w = (r, w')"
  shows "case r of
      None \<Rightarrow> (\<exists>l. stdout w' = stdout w @ [l])
    | Some e \<Rightarrow> stdout w' = stdout w"
proof (cases "recognize_celebrities ev (get_image_path ev f) w")
  case (Inl e)
  with assms show ?thesis by (auto simp: try_body_def Let_def)
next
  case (Inr resp)
  show ?thesis
  proof (cases "(case CelebrityFaces resp of None \<Rightarrow> [] | Some fs \<Rightarrow> fs) = []")
    case True
    with assms Inr show ?thesis by (auto simp: try_body_def Let_def)
  next
    case False
    with assms Inr have
      "draw_face_boxes ev (get_image_path ev f) (output_path_of ev (get_image_path ev f))
         (case CelebrityFaces resp of None \<Rightarrow> [] | Some fs \<Rightarrow> fs) w = (r, w')"
      by (simp add: try_body_def Let_def)
    from draw_face_boxes_stdout [OF this] show ?thesis
      by (cases r) simp_all
  qed
qed

lemma iteration_one_line: "length (stdout (iteration ev f w)) = Suc (length (stdout w))"
proof -
  obtain r w' where t: "try_body ev f w = (r, w')" by (cases "try_body ev f w")
  from try_body_stdout [OF t] show ?thesis
    by (cases r) (auto simp: iteration_def t)
qed

lemma run_batch_lines: "length (stdout (run_batch ev fs w)) = length (stdout w) + length fs"
  by (induction fs arbitrary: w) (simp_all add: iteration_one_line)

lemma try_body_no_faces:
  assumes "recognize_celebrities ev (get_image_path ev f) w = Inr resp"
    and "CelebrityFaces resp = None \<or> CelebrityFaces resp = Some []"
  shows "try_body ev f w =
    (None, print (''Nenhuma celebridade detectada em: '' @ get_image_path ev f) w)"
  using assms by (auto simp: try_body_def Let_def)

lemma draw_face_boxes_loaded:
  assumes "files w image_path = Some (Picture img)"
    and "Draw ev img = Inr draw"
    and "truetype ev ''Ubuntu-R.ttf'' 20 = Inr fnt"
    and "size img = (W, H)"
  shows "draw_face_boxes ev image_path output_path faces w =
    (case draw_faces draw fnt W H faces img of
       Inl e \<Rightarrow> (Some e, w)
     | Inr img' \<Rightarrow>
         (case save_fault ev output_path img' of
            Some (e, left_over) \<Rightarrow>
              (Some e, w\<lparr>files := (files w)(output_path := left_over)\<rparr>)
          | None \<Rightarrow>
              (None,
               print (''Imagem processada e salva em: '' @ output_path)
                 (w\<lparr>files := (files w)(output_path \<mapsto> Picture img')\<rparr>))))"
  using assms by (simp add: draw_face_boxes_def)

lemma example_photo_path [simp]:
  "get_image_path (example_env service) ''capr.jpeg'' = ''/app/images/capr.jpeg''"
  by (simp add: get_image_path_def example_env_def rel_parts_def)

lemma example_missing_path [simp]:
  "get_image_path (example_env service) ''riana.jpeg'' = ''/app/images/riana.jpeg''"
  by (simp add: get_image_path_def example_env_def rel_parts_def)

lemma example_output_path [simp]:
  "output_path_of (example_env service) ''/app/images/capr.jpeg'' =
     ''/app/images/capr-resultado.jpg''"
  by (simp add: output_path_of_def get_image_path_def example_env_def rel_parts_def stem_def
      Let_def)

section \<open>A response without entities\<close>

text \<open>
  Claim C3. For an input file whose recognition response has no detected
  entity (the list is empty or absent), the iteration only prints the line
  \<open>Nenhuma celebridade detectada em:\<close> with the path of the file: the files
  are as before, so no output file is created, and the batch goes on with
  the remaining files from that world. The Annotator is not invoked: whatever
  its arguments, a call of \<open>draw_face_boxes\<close> from the world of the iteration
  would have left another world, since it prints its own line or raises into
  the handler, which prints one.
\<close>

theorem no_entities_no_annotator:
  assumes "recognize_celebrities ev (get_image_path ev image_file) w = Inr resp"
    and "CelebrityFaces resp = None \<or> CelebrityFaces resp = Some []"
  shows "iteration ev image_file w =
      print (''Nenhuma celebridade detectada em: '' @ get_image_path ev image_file) w \<and>
    files (iteration ev image_file w) = files w \<and>
    run_batch ev (image_file # rest) w =
      run_batch ev rest
        (print (''Nenhuma celebridade detectada em: '' @ get_image_path ev image_file) w) \<and>
    (\<forall>image_path output_path faces.
       case draw_face_boxes ev image_path output_path faces w of
         (None, w') \<Rightarrow> w' \<noteq> iteration ev image_file w
       | (Some e, w') \<Rightarrow>
           print (''Erro ao processar a imagem '' @ image_file @ '': '' @ str_error e) w' \<noteq>
             iteration ev image_file w)"
proof -
  note t = try_body_no_faces [OF assms]
  have i: "iteration ev image_file w =
      print (''Nenhuma celebridade detectada em: '' @ get_image_path ev image_file) w"
    by (simp add: iteration_def t)
  have "case draw_face_boxes ev image_path output_path faces w of
         (None, w') \<Rightarrow> w' \<noteq> iteration ev image_file w
       | (Some e, w') \<Rightarrow>
           print (''Erro ao processar a imagem '' @ image_file @ '': '' @ str_error e) w' \<noteq>
             iteration ev image_file w" for image_path output_path faces
  proof -
    obtain r w' where d: "draw_face_boxes ev image_path output_path faces w = (r, w')"
      by (cases "draw_face_boxes ev image_path output_path faces w")
    note s = draw_face_boxes_stdout [OF d]
    show ?thesis
    proof (cases r)
      case None
      with s have "stdout w' \<noteq> stdout (iteration ev image_file w)" by (simp add: i)
      then have "w' \<noteq> iteration ev image_file w"
        by (rule contrapos_nn) (simp only:)
      with None d show ?thesis by simp
    next
      case (Some e)
      with s have "stdout (print (''Erro ao processar a imagem '' @ image_file @ '': '' @
          str_error e) w') \<noteq> stdout (iteration ev image_file w)"
        by (simp add: i)
      then have "print (''Erro ao processar a imagem '' @ image_file @ '': '' @
          str_error e) w' \<noteq> iteration ev image_file w"
        by (rule contrapos_nn) (simp only:)
      with Some d show ?thesis by simp
    qed
  qed
  then show ?thesis by (simp add: i)
qed

theorem no_entities_no_annotator_witness:
  "run_batch (example_env (\<lambda>image_file. Inr \<lparr>CelebrityFaces = Some []\<rparr>)) [''capr.jpeg'']
     example_world =
   example_world\<lparr>stdout := [''Nenhuma celebridade detectada em: /app/images/capr.jpeg'']\<rparr>"
proof -
  let ?ev = "example_env (\<lambda>image_file. Inr \<lparr>CelebrityFaces = Some []\<rparr>)"
  have r: "recognize_celebrities ?ev (get_image_path ?ev ''capr.jpeg'') example_world =
      Inr \<lparr>CelebrityFaces = Some []\<rparr>"
    by (simp add: recognize_celebrities_def example_world_def) (simp add: example_env_def)
  have e: "CelebrityFaces \<lparr>CelebrityFaces = Some []\<rparr> = None \<or>
      CelebrityFaces \<lparr>CelebrityFaces = Some []\<rparr> = Some ([] :: celebrity list)"
    by simp
  show ?thesis
    using no_entities_no_annotator [OF r e, of "[]"]
    by (simp add: print_def example_world_def)
qed

section \<open>Errors of one file\<close>

text \<open>
  Claim C4. When the body of the \<open>try\<close> raises for a file, the iteration
  prints one line, \<open>Erro ao processar a imagem\<close> with the file name and the
  message of the exception, after what the body had printed (nothing), and
  the batch goes on with the remaining files. Every iteration prints one
  line, so a batch prints as many lines as it has files, whatever raises. The
  body raises for a missing file (\<open>FileNotFoundError\<close>), for an exception of
  the recognition service, for an exception of the drawing loop, and for a
  failed save, which is the only one that may have changed a file.
\<close>

theorem errors_caught_per_file:
  assumes "try_body ev image_file w = (Some e, w')"
  shows "iteration ev image_file w =
      print (''Erro ao processar a imagem '' @ image_file @ '': '' @ str_error e) w' \<and>
    stdout w' = stdout w \<and>
    run_batch ev (image_file # rest) w =
      run_batch ev rest
        (print (''Erro ao processar a imagem '' @ image_file @ '': '' @ str_error e) w') \<and>
    (\<forall>fs w0. length (stdout (run_batch ev fs w0)) = length (stdout w0) + length fs) \<and>
    (\<forall>f w0. files w0 (get_image_path ev f) = None \<longrightarrow>
       try_body ev f w0 = (Some (FileNotFoundError (get_image_path ev f)), w0)) \<and>
    (\<forall>f w0 bytes err. files w0 (get_image_path ev f) = Some bytes \<and>
       client_recognize_celebrities ev bytes = Inl err \<longrightarrow>
       try_body ev f w0 = (Some err, w0)) \<and>
    (\<forall>f w0 bytes resp face faces.
       files w0 (get_image_path ev f) = Some bytes \<and>
       client_recognize_celebrities ev bytes = Inr resp \<and>
       CelebrityFaces resp = Some (face # faces) \<longrightarrow>
       try_body ev f w0 =
         draw_face_boxes ev (get_image_path ev f) (output_path_of ev (get_image_path ev f))
           (face # faces) w0) \<and>
    (\<forall>image_path output_path faces w0 img draw fnt W H err.
       files w0 image_path = Some (Picture img) \<and> Draw ev img = Inr draw \<and>
       truetype ev ''Ubuntu-R.ttf'' 20 = Inr fnt \<and> size img = (W, H) \<and>
       draw_faces draw fnt W H faces img = Inl err \<longrightarrow>
       draw_face_boxes ev image_path output_path faces w0 = (Some err, w0)) \<and>
    (\<forall>image_path output_path faces w0 img draw fnt W H img' err left_over.
       files w0 image_path = Some (Picture img) \<and> Draw ev img = Inr draw \<and>
       truetype ev ''Ubuntu-R.ttf'' 20 = Inr fnt \<and> size img = (W, H) \<and>
       draw_faces draw fnt W H faces img = Inr img' \<and>
       save_fault ev output_path img' = Some (err, left_over) \<longrightarrow>
       draw_face_boxes ev image_path output_path faces w0 =
         (Some err, w0\<lparr>files := (files w0)(output_path := left_over)\<rparr>))"
proof -
  have i: "iteration ev image_file w =
      print (''Erro ao processar a imagem '' @ image_file @ '': '' @ str_error e) w'"
    by (simp add: iteration_def assms)
  have s: "stdout w' = stdout w"
    using try_body_stdout [OF assms] by simp
  have b: "run_batch ev (image_file # rest) w =
      run_batch ev rest
        (print (''Erro ao processar a imagem '' @ image_file @ '': '' @ str_error e) w')"
    by (simp add: i)
  have l: "\<forall>fs w0. length (stdout (run_batch ev fs w0)) = length (stdout w0) + length fs"
    by (simp add: run_batch_lines)
  have m: "\<forall>f w0. files w0 (get_image_path ev f) = None \<longrightarrow>
       try_body ev f w0 = (Some (FileNotFoundError (get_image_path ev f)), w0)"
    by (simp add: try_body_def recognize_celebrities_def Let_def)
  have a: "\<forall>f w0 bytes err. files w0 (get_image_path ev f) = Some bytes \<and>
       client_recognize_celebrities ev bytes = Inl err \<longrightarrow>
       try_body ev f w0 = (Some err, w0)"
    by (simp add: try_body_def recognize_celebrities_def Let_def)
  have d: "\<forall>f w0 bytes resp face faces.
       files w0 (get_image_path ev f) = Some bytes \<and>
       client_recognize_celebrities ev bytes = Inr resp \<and>
       CelebrityFaces resp = Some (face # faces) \<longrightarrow>
       try_body ev f w0 =
         draw_face_boxes ev (get_image_path ev f) (output_path_of ev (get_image_path ev f))
           (face # faces) w0"
    by (simp add: try_body_def recognize_celebrities_def Let_def)
  have g: "\<forall>image_path output_path faces w0 img draw fnt W H err.
       files w0 image_path = Some (Picture img) \<and> Draw ev img = Inr draw \<and>
       truetype ev ''Ubuntu-R.ttf'' 20 = Inr fnt \<and> size img = (W, H) \<and>
       draw_faces draw fnt W H faces img = Inl err \<longrightarrow>
       draw_face_boxes ev image_path output_path faces w0 = (Some err, w0)"
    by (simp add: draw_face_boxes_def)
  have v: "\<forall>image_path output_path faces w0 img draw fnt W H img' err left_over.
       files w0 image_path = Some (Picture img) \<and> Draw ev img = Inr draw \<and>
       truetype ev ''Ubuntu-R.ttf'' 20 = Inr fnt \<and> size img = (W, H) \<and>
       draw_faces draw fnt W H faces img = Inr img' \<and>
       save_fault ev output_path img' = Some (err, left_over) \<longrightarrow>
       draw_face_boxes ev image_path output_path faces w0 =
         (Some err, w0\<lparr>files := (files w0)(output_path := left_over)\<rparr>)"
    by (simp add: draw_face_boxes_def)
  from i s b l m a d g v show ?thesis by (intro conjI)
qed

theorem errors_caught_per_file_witness:
  "run_batch (example_env (\<lambda>image_file. Inr \<lparr>CelebrityFaces = Some []\<rparr>))
     [''riana.jpeg'', ''capr.jpeg''] example_world =
   example_world\<lparr>stdout :=
     [''Erro ao processar a imagem riana.jpeg: [Errno 2] No such file or directory: '' @
        [CHR 0x27] @ ''/app/images/riana.jpeg'' @ [CHR 0x27],
      ''Nenhuma celebridade detectada em: /app/images/capr.jpeg'']\<rparr>"
proof -
  let ?ev = "example_env (\<lambda>image_file. Inr \<lparr>CelebrityFaces = Some []\<rparr>)"
  have t: "try_body ?ev ''riana.jpeg'' example_world =
      (Some (FileNotFoundError ''/app/images/riana.jpeg''), example_world)"
    by (simp add: try_body_def recognize_celebrities_def example_world_def)
  have r: "recognize_celebrities ?ev (get_image_path ?ev ''capr.jpeg'') w =
      Inr \<lparr>CelebrityFaces = Some []\<rparr>" if "files w = files example_world" for w
    using that by (simp add: recognize_celebrities_def example_world_def) (simp add: example_env_def)
  have n: "iteration ?ev ''capr.jpeg'' w =
      print (''Nenhuma celebridade detectada em: '' @ get_image_path ?ev ''capr.jpeg'') w"
    if "files w = files example_world" for w
    by (simp add: iteration_def try_body_no_faces [OF r [OF that]])
  show ?thesis
    using errors_caught_per_file [OF t, of "[''capr.jpeg'']"]
    by (simp add: n) (simp add: print_def example_world_def)
qed

section \<open>The save\<close>

text \<open>
  Claim C8. Once the image is open, its drawing object made and the font
  loaded, the Annotator saves whenever its loop returns, whatever the loop
  has drawn: the result is that of the save of the image the loop left, at
  the output path. For a list in which every entity has a bounding box that
  converts to pixels and a confidence that is not above 90 (a number at or
  below 90 is not), the loop returns the image as it was, so the file saved
  is the picture without annotation, and the line
  \<open>Imagem processada e salva em:\<close> is printed.
\<close>

theorem save_unconditional:
  assumes "files w image_path = Some (Picture img)"
    and "Draw ev img = Inr draw"
    and "truetype ev ''Ubuntu-R.ttf'' 20 = Inr fnt"
    and "size img = (W, H)"
  shows "(\<forall>img'. draw_faces draw fnt W H faces img = Inr img' \<longrightarrow>
       draw_face_boxes ev image_path output_path faces w =
         (case save_fault ev output_path img' of
            Some (e, left_over) \<Rightarrow>
              (Some e, w\<lparr>files := (files w)(output_path := left_over)\<rparr>)
          | None \<Rightarrow>
              (None,
               print (''Imagem processada e salva em: '' @ output_path)
                 (w\<lparr>files := (files w)(output_path \<mapsto> Picture img')\<rparr>)))) \<and>
    ((\<forall>face \<in> set faces. \<exists>b. pixel_box W H face = Inr b) \<and>
     (\<forall>face \<in> set faces. \<not> gt_int (get_confidence face) 90) \<longrightarrow>
       draw_faces draw fnt W H faces img = Inr img \<and>
       (save_fault ev output_path img = None \<longrightarrow>
          draw_face_boxes ev image_path output_path faces w =
            (None,
             print (''Imagem processada e salva em: '' @ output_path)
               (w\<lparr>files := (files w)(output_path \<mapsto> Picture img)\<rparr>)))) \<and>
    (\<forall>face c. MatchConfidence face = Some (Finite c) \<and> c \<le> 90 \<longrightarrow>
       \<not> gt_int (get_confidence face) 90)"
proof -
  note l = draw_face_boxes_loaded [OF assms, of output_path faces]
  have saved: "\<forall>img'. draw_faces draw fnt W H faces img = Inr img' \<longrightarrow>
       draw_face_boxes ev image_path output_path faces w =
         (case save_fault ev output_path img' of
            Some (e, left_over) \<Rightarrow>
              (Some e, w\<lparr>files := (files w)(output_path := left_over)\<rparr>)
          | None \<Rightarrow>
              (None,
               print (''Imagem processada e salva em: '' @ output_path)
                 (w\<lparr>files := (files w)(output_path \<mapsto> Picture img')\<rparr>)))"
    by (simp add: l)
  have below: "draw_faces draw fnt W H faces img = Inr img \<and>
       (save_fault ev output_path img = None \<longrightarrow>
          draw_face_boxes ev image_path output_path faces w =
            (None,
             print (''Imagem processada e salva em: '' @ output_path)
               (w\<lparr>files := (files w)(output_path \<mapsto> Picture img)\<rparr>)))"
    if "(\<forall>face \<in> set faces. \<exists>b. pixel_box W H face = Inr b) \<and>
     (\<forall>face \<in> set faces. \<not> gt_int (get_confidence face) 90)"
  proof -
    from that have "draw_faces draw fnt W H faces img = Inr img"
      by (intro draw_faces_below) simp_all
    then show ?thesis by (simp add: l)
  qed
  have num: "\<forall>face c. MatchConfidence face = Some (Finite c) \<and> c \<le> 90 \<longrightarrow>
       \<not> gt_int (get_confidence face) 90"
    by (simp add: get_confidence_def)
  from saved below num show ?thesis by blast
qed

theorem save_unconditional_witness:
  "draw_face_boxes (example_env (\<lambda>image_file. Inr \<lparr>CelebrityFaces = Some []\<rparr>))
     ''/app/images/capr.jpeg'' ''/app/images/capr-resultado.jpg''
     [detected_entity (round_double (1 / 10)) (round_double (1 / 5))
        (round_double (3 / 10)) (round_double (2 / 5)) (Some (Finite 50)) (Some ''Ada'')]
     example_world =
   (None,
    \<lparr>files = [''/app/images/capr.jpeg'' \<mapsto>
                Picture \<lparr>size = (1000, 500), pixels = ''capr'', drawn = []\<rparr>,
              ''/app/images/capr-resultado.jpg'' \<mapsto>
                Picture \<lparr>size = (1000, 500), pixels = ''capr'', drawn = []\<rparr>],
     stdout = [''Imagem processada e salva em: /app/images/capr-resultado.jpg'']\<rparr>)"
proof -
  let ?ev = "example_env (\<lambda>image_file. Inr \<lparr>CelebrityFaces = Some []\<rparr>)"
  let ?img = "\<lparr>size = (1000 :: int, 500 :: int), pixels = ''capr'', drawn = []\<rparr>"
  let ?faces = "[detected_entity (round_double (1 / 10)) (round_double (1 / 5))
        (round_double (3 / 10)) (round_double (2 / 5)) (Some (Finite 50)) (Some ''Ada'')]"
  have f: "files example_world ''/app/images/capr.jpeg'' = Some (Picture ?img)"
    by (simp add: example_world_def)
  have d: "Draw ?ev ?img = Inr example_draw"
    by (simp add: example_env_def)
  have t: "truetype ?ev ''Ubuntu-R.ttf'' 20 = Inr fixed_width_font"
    by (simp add: example_env_def)
  have s: "size ?img = (1000, 500)" by simp
  have b: "(\<forall>face \<in> set ?faces. \<exists>b. pixel_box 1000 500 face = Inr b) \<and>
     (\<forall>face \<in> set ?faces. \<not> gt_int (get_confidence face) 90)"
    by (simp add: example_pixel_box)
  have v: "save_fault ?ev ''/app/images/capr-resultado.jpg'' ?img = None"
    by (simp add: example_env_def)
  from save_unconditional [OF f d t s, of ?faces "''/app/images/capr-resultado.jpg''",
      THEN conjunct2, THEN conjunct1, rule_format, OF b, THEN conjunct2, rule_format, OF v]
  show ?thesis
    by (simp add: print_def example_world_def)
qed

section \<open>Paths and their strings\<close>

lemma split_sep_ne [simp]: "split_sep s \<noteq> []"
  by (induction s) (auto split: list.splits)

lemma split_sep_no_slash: "x \<in> set (split_sep s) \<Longrightarrow> CHR ''/'' \<notin> set x"
  by (induction s arbitrary: x) (auto split: if_splits list.splits)

lemma split_sep_plain: "CHR ''/'' \<notin> set s \<Longrightarrow> split_sep s = [s]"
  by (induction s) auto

lemma split_sep_slash:
  "CHR ''/'' \<notin> set x \<Longrightarrow> split_sep (x @ CHR ''/'' # s) = x # split_sep s"
  by (induction x) (auto split: list.splits)

lemma split_join:
  "\<forall>x \<in> set xs. CHR ''/'' \<notin> set x \<Longrightarrow> xs \<noteq> [] \<Longrightarrow> split_sep (join_sep xs) = xs"
proof (induction xs rule: join_sep.induct)
  case 1
  then show ?case by simp
next
  case (2 x)
  then show ?case by (simp add: split_sep_plain)
next
  case (3 x y ys)
  then show ?case by (simp add: split_sep_slash)
qed

lemma rel_parts_join:
  assumes "\<forall>x \<in> set xs. component x"
  shows "rel_parts (join_sep xs) = xs"
proof (cases "xs = []")
  case True
  then show ?thesis by (simp add: rel_parts_def)
next
  case False
  have "split_sep (join_sep xs) = xs"
    using assms False by (intro split_join) (auto simp: component_def)
  then show ?thesis
    using assms by (simp add: rel_parts_def component_def filter_id_conv)
qed

lemma rel_parts_component: "x \<in> set (rel_parts s) \<Longrightarrow> component x"
  by (auto simp: rel_parts_def component_def dest: split_sep_no_slash)

lemma rel_parts_of_component: "component x \<Longrightarrow> rel_parts x = [x]"
  by (simp add: rel_parts_def component_def split_sep_plain)

lemma parse_path_relative:
  "s = [] \<or> hd s \<noteq> CHR ''/'' \<Longrightarrow> parse_path s = Path [] (rel_parts s)"
  by (cases s rule: parse_path.cases) (auto simp: rel_parts_def)

lemma parse_path_slash:
  "js \<noteq> [] \<Longrightarrow> hd js \<noteq> CHR ''/'' \<Longrightarrow> parse_path (CHR ''/'' # js) = Path ''/'' (rel_parts js)"
  by (cases js; cases "tl js") auto

lemma parse_path_slash2:
  "js \<noteq> [] \<Longrightarrow> hd js \<noteq> CHR ''/'' \<Longrightarrow>
     parse_path (CHR ''/'' # CHR ''/'' # js) = Path ''//'' (rel_parts js)"
  by (cases js) auto

lemma well_formed_parse_path [simp]: "well_formed (parse_path s)"
  by (cases s rule: parse_path.cases) (auto dest: rel_parts_component)

lemma join_sep_hd:
  assumes "\<forall>x \<in> set xs. component x" "xs \<noteq> []"
  shows "join_sep xs \<noteq> [] \<and> hd (join_sep xs) \<noteq> CHR ''/''"
proof -
  obtain x ys where xs: "xs = x # ys" using assms(2) by (cases xs) auto
  with assms(1) have x: "x \<noteq> []" "CHR ''/'' \<notin> set x" by (auto simp: component_def)
  then have "hd x \<noteq> CHR ''/''" by (cases x) auto
  with x xs show ?thesis by (cases ys) auto
qed

lemma parse_str:
  assumes "well_formed p"
  shows "parse_path (str_path p) = p"
proof -
  obtain rt tail where p: "p = Path rt tail" by (cases p)
  with assms have rt: "rt = [] \<or> rt = ''/'' \<or> rt = ''//''"
    and c: "\<forall>x \<in> set tail. component x" by auto
  show ?thesis
  proof (cases "tail = []")
    case True
    with rt p show ?thesis by (auto simp: rel_parts_def)
  next
    case False
    note h = join_sep_hd [OF c False]
    note r = rel_parts_join [OF c]
    from rt show ?thesis
    proof (elim disjE)
      assume "rt = []"
      with False p h r show ?thesis by (simp add: parse_path_relative)
    next
      assume "rt = ''/''"
      with False p h r show ?thesis by (simp add: parse_path_slash)
    next
      assume "rt = ''//''"
      with False p h r show ?thesis by (simp add: parse_path_slash2)
    qed
  qed
qed

lemma well_formed_parent: "well_formed p \<Longrightarrow> well_formed (parent p)"
  by (cases p) (auto dest: in_set_butlastD)

lemma well_formed_truediv: "well_formed p \<Longrightarrow> well_formed (truediv p s)"
  by (cases p) (auto dest: rel_parts_component)

lemma join_sep_snoc: "xs \<noteq> [] \<Longrightarrow> join_sep (xs @ [x]) = join_sep xs @ ''/'' @ x"
  by (induction xs rule: join_sep.induct) auto

lemma rfind_bounds: "- 1 \<le> rfind s c \<and> rfind s c < int (length s)"
  by (induction s) (auto simp: Let_def)

lemma stem_subset: "set (stem p) \<subseteq> set (name p)"
  by (auto simp: stem_def Let_def dest: in_set_takeD)

lemma name_component: "well_formed p \<Longrightarrow> CHR ''/'' \<notin> set (name p)"
  by (cases p) (auto simp: component_def)

text \<open>The images directory and the paths below it.\<close>

lemma images_directory_eq:
  "\<exists>rt dir. images_directory ev = Path rt (dir @ [''images'']) \<and>
     (rt = [] \<or> rt = ''/'' \<or> rt = ''//'') \<and> (\<forall>x \<in> set dir. component x)"
proof -
  obtain rt tail where p: "parse_path (script_file ev) = Path rt tail"
    by (cases "parse_path (script_file ev)")
  have "well_formed (Path rt tail)" using well_formed_parse_path [of "script_file ev"] p by simp
  then have "well_formed (parent (Path rt tail))" by (rule well_formed_parent)
  moreover have "images_directory ev = Path rt (butlast tail @ [''images''])"
    by (simp add: images_directory_def p rel_parts_def)
  ultimately show ?thesis by auto
qed

lemma well_formed_images_directory: "well_formed (images_directory ev)"
  unfolding images_directory_def
  by (intro well_formed_truediv well_formed_parent well_formed_parse_path)

lemma get_image_path_eq:
  "get_image_path ev file_name = str_path (truediv (images_directory ev) file_name)"
  by (simp add: get_image_path_def images_directory_def)

lemma parse_get_image_path:
  "parse_path (get_image_path ev file_name) = truediv (images_directory ev) file_name"
  unfolding get_image_path_eq
  by (intro parse_str well_formed_truediv well_formed_images_directory)

lemma result_name_component:
  assumes "well_formed p"
  shows "component (stem p @ ''-resultado.jpg'')"
proof -
  have "CHR ''/'' \<notin> set (stem p)"
    using name_component [OF assms] stem_subset [of p] by auto
  then show ?thesis by (auto simp: component_def)
qed

lemma below_images_directory:
  assumes "component nm"
  shows "get_image_path ev nm = str_path (images_directory ev) @ ''/'' @ nm"
proof -
  obtain rt dir where d: "images_directory ev = Path rt (dir @ [''images''])"
    using images_directory_eq by blast
  from assms have h: "nm \<noteq> []" "hd nm \<noteq> CHR ''/''"
    by (cases nm; auto simp: component_def)+
  have "truediv (images_directory ev) nm = Path rt ((dir @ [''images'']) @ [nm])"
    using h by (simp add: d rel_parts_of_component [OF assms])
  then show ?thesis
    by (simp add: get_image_path_eq d join_sep_snoc del: append_assoc)
qed

lemma output_path_of_eq:
  "output_path_of ev (get_image_path ev file_name) =
     str_path (images_directory ev) @ ''/'' @
       stem (truediv (images_directory ev) file_name) @ ''-resultado.jpg''"
proof -
  have w: "well_formed (truediv (images_directory ev) file_name)"
    by (intro well_formed_truediv well_formed_images_directory)
  show ?thesis
    unfolding output_path_of_def parse_get_image_path
    using below_images_directory [OF result_name_component [OF w]] by simp
qed

lemma name_truediv:
  assumes "rel_parts file_name \<noteq> []"
  shows "name (truediv p file_name) = name (parse_path file_name)"
proof -
  obtain rt tail where p: "p = Path rt tail" by (cases p)
  show ?thesis
  proof (cases "file_name \<noteq> [] \<and> hd file_name = CHR ''/''")
    case True
    then show ?thesis by (simp add: p)
  next
    case False
    then have "parse_path file_name = Path [] (rel_parts file_name)"
      by (intro parse_path_relative) auto
    with False assms show ?thesis by (auto simp: p)
  qed
qed

lemma stem_truediv:
  assumes "rel_parts file_name \<noteq> []"
  shows "stem (truediv p file_name) = stem (parse_path file_name)"
  by (simp add: stem_def name_truediv [OF assms])

text \<open>The stem of a name is the name without its last suffix.\<close>

lemma rfind_absent: "c \<notin> set s \<Longrightarrow> rfind s c = - 1"
  by (induction s) (auto simp: Let_def)

lemma rfind_last: "c \<notin> set ext \<Longrightarrow> rfind (base @ c # ext) c = int (length base)"
  by (induction base) (auto simp: Let_def rfind_absent)

lemma name_parse_component: "component nm \<Longrightarrow> name (parse_path nm) = nm"
proof -
  assume c: "component nm"
  then have "nm \<noteq> []" "hd nm \<noteq> CHR ''/''" by (cases nm; auto simp: component_def)+
  then have "parse_path nm = Path [] (rel_parts nm)" by (intro parse_path_relative) simp
  then show ?thesis by (simp add: rel_parts_of_component [OF c])
qed

lemma stem_suffix:
  assumes "base \<noteq> []" "ext \<noteq> []" "CHR ''.'' \<notin> set ext" "CHR ''/'' \<notin> set (base @ ext)"
  shows "stem (parse_path (base @ ''.'' @ ext)) = base"
proof -
  have "base @ ''.'' @ ext \<noteq> ''.''" using assms(1) by (cases base) auto
  with assms have c: "component (base @ ''.'' @ ext)" by (auto simp: component_def)
  have r: "rfind (base @ CHR ''.'' # ext) CHR ''.'' = int (length base)"
    using assms(3) by (rule rfind_last)
  show ?thesis
    using assms(1,2) by (simp add: stem_def name_parse_component [OF c, simplified] r Let_def)
qed

lemma stem_no_suffix:
  assumes "nm \<noteq> []" "CHR ''.'' \<notin> set nm" "CHR ''/'' \<notin> set nm"
  shows "stem (parse_path nm) = nm"
proof -
  have "nm \<noteq> ''.''" using assms(2) by auto
  with assms have c: "component nm" by (auto simp: component_def)
  show ?thesis
    by (simp add: stem_def name_parse_component [OF c] rfind_absent [OF assms(2)] Let_def)
qed

section \<open>The output path\<close>

text \<open>
  Claim C5. For every file name, the output path is the images directory
  (the directory of the script, then \<open>images\<close>), a slash, and the stem of the
  photo path followed by \<open>-resultado.jpg\<close>; that last component holds no
  slash, so the output file lies in the images directory itself. When the
  file name has a final component, the stem is the stem of the file name, and
  a plain file name is resolved in the same directory. The stem of a name is
  the name without its last suffix: \<open>base.ext\<close> gives \<open>base\<close>, and a name
  without a dot is its own stem. The ten names of the batch are plain, and
  \<open>capr.jpeg\<close> gives \<open>capr-resultado.jpg\<close>.
\<close>

theorem output_in_images_directory:
  "output_path_of ev (get_image_path ev file_name) =
     str_path (truediv (parent (parse_path (script_file ev))) ''images'') @ ''/'' @
       stem (parse_path (get_image_path ev file_name)) @ ''-resultado.jpg'' \<and>
   CHR ''/'' \<notin> set (stem (parse_path (get_image_path ev file_name)) @ ''-resultado.jpg'') \<and>
   (rel_parts file_name \<noteq> [] \<longrightarrow>
      stem (parse_path (get_image_path ev file_name)) = stem (parse_path file_name)) \<and>
   (component file_name \<longrightarrow>
      get_image_path ev file_name =
        str_path (truediv (parent (parse_path (script_file ev))) ''images'') @ ''/'' @ file_name) \<and>
   (\<forall>base ext. base \<noteq> [] \<and> ext \<noteq> [] \<and> CHR ''.'' \<notin> set ext \<and> CHR ''/'' \<notin> set (base @ ext) \<longrightarrow>
      stem (parse_path (base @ ''.'' @ ext)) = base) \<and>
   (\<forall>nm. nm \<noteq> [] \<and> CHR ''.'' \<notin> set nm \<and> CHR ''/'' \<notin> set nm \<longrightarrow> stem (parse_path nm) = nm) \<and>
   (\<forall>image_file \<in> set image_files. component image_file) \<and>
   output_path_of (example_env service) (get_image_path (example_env service) ''capr.jpeg'') =
     ''/app/images/capr-resultado.jpg''"
proof -
  have w: "well_formed (truediv (images_directory ev) file_name)"
    by (intro well_formed_truediv well_formed_images_directory)
  have out: "output_path_of ev (get_image_path ev file_name) =
     str_path (truediv (parent (parse_path (script_file ev))) ''images'') @ ''/'' @
       stem (parse_path (get_image_path ev file_name)) @ ''-resultado.jpg''"
    using output_path_of_eq [of ev file_name]
    by (simp add: parse_get_image_path) (simp add: images_directory_def)
  have slash: "CHR ''/'' \<notin>
      set (stem (parse_path (get_image_path ev file_name)) @ ''-resultado.jpg'')"
    using result_name_component [OF w] by (simp add: parse_get_image_path component_def)
  have st: "rel_parts file_name \<noteq> [] \<longrightarrow>
      stem (parse_path (get_image_path ev file_name)) = stem (parse_path file_name)"
    by (simp add: parse_get_image_path stem_truediv)
  have same: "component file_name \<longrightarrow>
      get_image_path ev file_name =
        str_path (truediv (parent (parse_path (script_file ev))) ''images'') @ ''/'' @ file_name"
    using below_images_directory [of file_name ev] by (simp add: images_directory_def)
  have suffix: "\<forall>base ext. base \<noteq> [] \<and> ext \<noteq> [] \<and> CHR ''.'' \<notin> set ext \<and>
      CHR ''/'' \<notin> set (base @ ext) \<longrightarrow> stem (parse_path (base @ ''.'' @ ext)) = base"
    using stem_suffix by blast
  have plain: "\<forall>nm. nm \<noteq> [] \<and> CHR ''.'' \<notin> set nm \<and> CHR ''/'' \<notin> set nm \<longrightarrow>
      stem (parse_path nm) = nm"
    using stem_no_suffix by blast
  have batch: "\<forall>image_file \<in> set image_files. component image_file"
    by (simp add: image_files_def component_def)
  have capr: "output_path_of (example_env service)
      (get_image_path (example_env service) ''capr.jpeg'') = ''/app/images/capr-resultado.jpg''"
    by simp
  from out slash st same suffix plain batch capr show ?thesis by (intro conjI)
qed

theorem output_in_images_directory_witness:
  "rel_parts ''capr.jpeg'' \<noteq> [] \<and> component ''capr.jpeg'' \<and>
   get_image_path (example_env (\<lambda>image_file. Inr \<lparr>CelebrityFaces = Some []\<rparr>)) ''capr.jpeg'' =
     ''/app/images/capr.jpeg'' \<and>
   output_path_of (example_env (\<lambda>image_file. Inr \<lparr>CelebrityFaces = Some []\<rparr>))
     (get_image_path (example_env (\<lambda>image_file. Inr \<lparr>CelebrityFaces = Some []\<rparr>)) ''capr.jpeg'') =
     ''/app/images/'' @ stem (parse_path ''capr.jpeg'') @ ''-resultado.jpg'' \<and>
   stem (parse_path ''capr.jpeg'') = ''capr''"
proof -
  let ?ev = "example_env (\<lambda>image_file. Inr \<lparr>CelebrityFaces = Some []\<rparr>)"
  have r: "rel_parts ''capr.jpeg'' \<noteq> []" by (simp add: rel_parts_def)
  have c: "component ''capr.jpeg''" by (simp add: component_def)
  have d: "str_path (truediv (parent (parse_path (script_file ?ev))) ''images'') = ''/app/images''"
    by (simp add: example_env_def rel_parts_def)
  have s: "''capr'' \<noteq> [] \<and> ''jpeg'' \<noteq> [] \<and> CHR ''.'' \<notin> set ''jpeg'' \<and>
      CHR ''/'' \<notin> set (''capr'' @ ''jpeg'')"
    by simp
  note t = output_in_images_directory [of ?ev "''capr.jpeg''"]
  from t have o: "output_path_of ?ev (get_image_path ?ev ''capr.jpeg'') =
     str_path (truediv (parent (parse_path (script_file ?ev))) ''images'') @ ''/'' @
       stem (parse_path (get_image_path ?ev ''capr.jpeg'')) @ ''-resultado.jpg''"
    by (rule conjunct1)
  from t r have st: "stem (parse_path (get_image_path ?ev ''capr.jpeg'')) =
      stem (parse_path ''capr.jpeg'')"
    by blast
  from t c have g: "get_image_path ?ev ''capr.jpeg'' =
      str_path (truediv (parent (parse_path (script_file ?ev))) ''images'') @ ''/'' @ ''capr.jpeg''"
    by blast
  from t s have b: "stem (parse_path (''capr'' @ ''.'' @ ''jpeg'')) = ''capr''"
    by blast
  from r c o st g b show ?thesis by (simp add: d)
qed

end
